theory Spec2Isabelle
  imports Main "HOL-Library.Word" "HOL-Library.List_Lexorder"
begin

text \<open>
  The posts service of the blog back end (\<^verbatim>\<open>src/backend/src/posts.ts\<close>) and the routes in
  front of it, as functions on an explicit table of posts. The definitions come first:
  strings and \<^verbatim>\<open>generateSlug\<close>, the JSON encoding of the tags, the data model, the store
  and the service, the routes. The facts about them follow, and then the claims of the
  specification, one section each.
\<close>

section \<open>Strings of the JavaScript runtime\<close>

text \<open>
  A JavaScript string is a sequence of UTF-16 code units. The regular expressions of
  \<^verbatim>\<open>posts.ts\<close> carry no \<^verbatim>\<open>u\<close> flag, so they match code unit by code unit.
  A literal of the source is written \<open>js ''...''\<close>.
\<close>

type_synonym jsstring = "16 word list"

abbreviation js :: "string \<Rightarrow> jsstring" where
  "js s \<equiv> map of_char s"

definition hyphen :: "16 word" where
  "hyphen = 0x2D"

text \<open>
  The class \<^verbatim>\<open>\s\<close> of a regular expression, which is also the set that
  \<^verbatim>\<open>String.prototype.trim\<close> strips: WhiteSpace (TAB, VT, FF, SP, NBSP, ZWNBSP and the
  space separators of Unicode) and LineTerminator (LF, CR, LS, PS).
\<close>

definition isSpace :: "16 word \<Rightarrow> bool" where
  "isSpace c \<longleftrightarrow>
     c \<in> {0x09, 0x0A, 0x0B, 0x0C, 0x0D, 0x20, 0xA0, 0x1680, 0x2028, 0x2029,
          0x202F, 0x205F, 0x3000, 0xFEFF}
     \<or> (0x2000 \<le> c \<and> c \<le> 0x200A)"

definition isLowerAZ :: "16 word \<Rightarrow> bool" where
  "isLowerAZ c \<longleftrightarrow> 0x61 \<le> c \<and> c \<le> 0x7A"

definition isDigit :: "16 word \<Rightarrow> bool" where
  "isDigit c \<longleftrightarrow> 0x30 \<le> c \<and> c \<le> 0x39"

text \<open>
  \<^verbatim>\<open>toLowerCase\<close> is a built-in of the runtime that follows the Unicode case tables; the
  functions below take it as the parameter \<open>lower\<close>. On a string of ASCII code units it
  is \<open>asciiLower\<close>, which the concrete evaluations use.
\<close>

definition asciiLower :: "jsstring \<Rightarrow> jsstring" where
  "asciiLower s = map (\<lambda>c. if 0x41 \<le> c \<and> c \<le> 0x5A then c + 0x20 else c) s"

section \<open>generateSlug (posts.ts, lines 69-76)\<close>

text \<open>\<^verbatim>\<open>.replace(/[^a-z0-9\s-]/g, '')\<close>: every code unit outside the class is removed.\<close>

definition inSlugClass :: "16 word \<Rightarrow> bool" where
  "inSlugClass c \<longleftrightarrow> isLowerAZ c \<or> isDigit c \<or> isSpace c \<or> c = hyphen"

definition stripOutsideClass :: "jsstring \<Rightarrow> jsstring" where
  "stripOutsideClass s = filter inSlugClass s"

text \<open>
  \<^verbatim>\<open>.replace(/\s+/g, '-')\<close> and \<^verbatim>\<open>.replace(/-+/g, '-')\<close>: every maximal run of code
  units of the class \<open>P\<close> is replaced by one hyphen.
\<close>

function replaceRuns :: "(16 word \<Rightarrow> bool) \<Rightarrow> jsstring \<Rightarrow> jsstring" where
  "replaceRuns P [] = []"
| "replaceRuns P (c # cs) =
     (if P c then hyphen # replaceRuns P (dropWhile P cs) else c # replaceRuns P cs)"
  by pat_completeness auto
termination
  by (relation "measure (\<lambda>(P, s). length s)")
     (auto simp: length_dropWhile_le less_Suc_eq_le)

text \<open>\<^verbatim>\<open>.trim()\<close>: white space and line terminators are stripped from both ends.\<close>

definition trim :: "jsstring \<Rightarrow> jsstring" where
  "trim s = rev (dropWhile isSpace (rev (dropWhile isSpace s)))"

definition generateSlug :: "(jsstring \<Rightarrow> jsstring) \<Rightarrow> jsstring \<Rightarrow> jsstring" where
  "generateSlug lower title =
     trim (replaceRuns (\<lambda>c. c = hyphen) (replaceRuns isSpace (stripOutsideClass (lower title))))"

text \<open>The shape the specification promises for a slug.\<close>

definition slugChar :: "16 word \<Rightarrow> bool" where
  "slugChar c \<longleftrightarrow> isLowerAZ c \<or> isDigit c \<or> c = hyphen"

fun hasDoubleHyphen :: "jsstring \<Rightarrow> bool" where
  "hasDoubleHyphen (a # b # cs) \<longleftrightarrow> (a = hyphen \<and> b = hyphen) \<or> hasDoubleHyphen (b # cs)"
| "hasDoubleHyphen _ \<longleftrightarrow> False"

definition leadingHyphen :: "jsstring \<Rightarrow> bool" where
  "leadingHyphen s \<longleftrightarrow> (case s of [] \<Rightarrow> False | c # _ \<Rightarrow> c = hyphen)"

definition trailingHyphen :: "jsstring \<Rightarrow> bool" where
  "trailingHyphen s \<longleftrightarrow> leadingHyphen (rev s)"

section \<open>JSON.stringify and JSON.parse\<close>

text \<open>
  \<^verbatim>\<open>stringifyTags\<close> and \<^verbatim>\<open>parseTags\<close> (posts.ts, lines 47-58) call the built-ins
  \<^verbatim>\<open>JSON.stringify\<close> and \<^verbatim>\<open>JSON.parse\<close>. They are modelled after ECMA-262:
  \<^verbatim>\<open>JSON.stringify\<close> on an array of strings (the only argument the source passes), and
  \<^verbatim>\<open>JSON.parse\<close> on any text. A parsed number keeps its lexeme, and a parsed object keeps
  its members as written; neither is looked into by the source.
\<close>

datatype json =
    JNull
  | JBool bool
  | JNumber jsstring
  | JString jsstring
  | JArray "json list"
  | JObject "(jsstring \<times> json) list"

abbreviation quoteMark :: "16 word" where
  "quoteMark \<equiv> 0x22"

abbreviation backslash :: "16 word" where
  "backslash \<equiv> 0x5C"

definition isLeadSurrogate :: "16 word \<Rightarrow> bool" where
  "isLeadSurrogate c \<longleftrightarrow> 0xD800 \<le> c \<and> c \<le> 0xDBFF"

definition isTrailSurrogate :: "16 word \<Rightarrow> bool" where
  "isTrailSurrogate c \<longleftrightarrow> 0xDC00 \<le> c \<and> c \<le> 0xDFFF"

subsection \<open>QuoteJSONString\<close>

text \<open>UnicodeEscape: \<^verbatim>\<open>\u\<close> and four lower-case hexadecimal digits.\<close>

definition hexDigit :: "nat \<Rightarrow> 16 word" where
  "hexDigit n = (if n < 10 then 0x30 + of_nat n else 0x61 + of_nat (n - 10))"

definition unicodeEscape :: "16 word \<Rightarrow> jsstring" where
  "unicodeEscape c =
     [backslash, 0x75,
      hexDigit (unat c div 4096), hexDigit (unat c div 256 mod 16),
      hexDigit (unat c div 16 mod 16), hexDigit (unat c mod 16)]"

text \<open>
  One code point that is a single code unit: the short escapes of the table
  (\<^verbatim>\<open>\b \t \n \f \r \" \\\<close>), a Unicode escape for the other control characters and
  for a surrogate that stands alone, the code unit itself otherwise.
\<close>

definition quoteUnit :: "16 word \<Rightarrow> jsstring" where
  "quoteUnit c =
     (if c = 0x08 then [backslash, 0x62]
      else if c = 0x09 then [backslash, 0x74]
      else if c = 0x0A then [backslash, 0x6E]
      else if c = 0x0C then [backslash, 0x66]
      else if c = 0x0D then [backslash, 0x72]
      else if c = quoteMark then [backslash, quoteMark]
      else if c = backslash then [backslash, backslash]
      else if c < 0x20 \<or> isLeadSurrogate c \<or> isTrailSurrogate c then unicodeEscape c
      else [c])"

text \<open>
  The string is read code point by code point: a leading surrogate followed by a trailing
  one is one code point and is copied; every other code unit is a code point of its own.
\<close>

fun quoteUnits :: "jsstring \<Rightarrow> jsstring" where
  "quoteUnits (c # d # cs) =
     (if isLeadSurrogate c \<and> isTrailSurrogate d then c # d # quoteUnits cs
      else quoteUnit c @ quoteUnits (d # cs))"
| "quoteUnits [c] = quoteUnit c"
| "quoteUnits [] = []"

definition QuoteJSONString :: "jsstring \<Rightarrow> jsstring" where
  "QuoteJSONString s = quoteMark # quoteUnits s @ [quoteMark]"

subsection \<open>JSON.stringify of an array of strings\<close>

fun joinComma :: "jsstring list \<Rightarrow> jsstring" where
  "joinComma [] = []"
| "joinComma [x] = x"
| "joinComma (x # y # r) = x @ 0x2C # joinComma (y # r)"

definition JSON_stringify :: "jsstring list \<Rightarrow> jsstring" where
  "JSON_stringify xs = 0x5B # joinComma (map QuoteJSONString xs) @ [0x5D]"

subsection \<open>The tokens of a JSON text\<close>

definition fromHex :: "16 word \<Rightarrow> nat option" where
  "fromHex c =
     (if 0x30 \<le> c \<and> c \<le> 0x39 then Some (unat c - 0x30)
      else if 0x61 \<le> c \<and> c \<le> 0x66 then Some (unat c - 0x61 + 10)
      else if 0x41 \<le> c \<and> c \<le> 0x46 then Some (unat c - 0x41 + 10)
      else None)"

definition fromHex4 :: "16 word \<Rightarrow> 16 word \<Rightarrow> 16 word \<Rightarrow> 16 word \<Rightarrow> 16 word option" where
  "fromHex4 a b c d =
     (case (fromHex a, fromHex b, fromHex c, fromHex d) of
        (Some x, Some y, Some z, Some w) \<Rightarrow> Some (of_nat (x * 4096 + y * 256 + z * 16 + w))
      | _ \<Rightarrow> None)"

text \<open>The character after a backslash: \<^verbatim>\<open>" \ / b f n r t\<close>.\<close>

definition unescape :: "16 word \<Rightarrow> 16 word option" where
  "unescape e =
     (if e = quoteMark then Some quoteMark
      else if e = backslash then Some backslash
      else if e = 0x2F then Some 0x2F
      else if e = 0x62 then Some 0x08
      else if e = 0x66 then Some 0x0C
      else if e = 0x6E then Some 0x0A
      else if e = 0x72 then Some 0x0D
      else if e = 0x74 then Some 0x09
      else None)"

definition consFst :: "'a \<Rightarrow> ('a list \<times> 'b) option \<Rightarrow> ('a list \<times> 'b) option" where
  "consFst x r = (case r of None \<Rightarrow> None | Some (xs, y) \<Rightarrow> Some (x # xs, y))"

text \<open>
  The body of a string, read from behind its opening quotation mark: the decoded code
  units and the text behind the closing quotation mark. A control character, an unknown
  escape or a missing closing mark is a syntax error (\<open>None\<close>).
\<close>

fun scanString :: "jsstring \<Rightarrow> (jsstring \<times> jsstring) option" where
  "scanString [] = None"
| "scanString (c # cs) =
     (if c = quoteMark then Some ([], cs)
      else if c = backslash then
        (case cs of
           [] \<Rightarrow> None
         | e # r \<Rightarrow>
             if e = 0x75 then
               (case r of
                  h1 # h2 # h3 # h4 # r' \<Rightarrow>
                    (case fromHex4 h1 h2 h3 h4 of
                       None \<Rightarrow> None
                     | Some u \<Rightarrow> consFst u (scanString r'))
                | _ \<Rightarrow> None)
             else
               (case unescape e of
                  None \<Rightarrow> None
                | Some u \<Rightarrow> consFst u (scanString r)))
      else if c < 0x20 then None
      else consFst c (scanString cs))"

text \<open>
  A number is \<^verbatim>\<open>-? (0 | [1-9][0-9]*) (. [0-9]+)? ([eE] [+-]? [0-9]+)?\<close>; each scanner
  returns the lexeme it read and the text behind it.
\<close>

definition scanInteger :: "jsstring \<Rightarrow> (jsstring \<times> jsstring) option" where
  "scanInteger s =
     (case s of
        c # r \<Rightarrow>
          if c = 0x30 then Some ([c], r)
          else if isDigit c then Some (c # takeWhile isDigit r, dropWhile isDigit r)
          else None
      | [] \<Rightarrow> None)"

definition scanFraction :: "jsstring \<Rightarrow> (jsstring \<times> jsstring) option" where
  "scanFraction s =
     (case s of
        c # r \<Rightarrow>
          if c = 0x2E then
            (if takeWhile isDigit r = [] then None
             else Some (c # takeWhile isDigit r, dropWhile isDigit r))
          else Some ([], s)
      | [] \<Rightarrow> Some ([], s))"

definition scanExponent :: "jsstring \<Rightarrow> (jsstring \<times> jsstring) option" where
  "scanExponent s =
     (case s of
        c # r \<Rightarrow>
          if c = 0x65 \<or> c = 0x45 then
            (let sign = (case r of d # _ \<Rightarrow> if d = 0x2B \<or> d = 0x2D then [d] else [] | [] \<Rightarrow> []);
                 r' = drop (length sign) r
             in if takeWhile isDigit r' = [] then None
                else Some (c # sign @ takeWhile isDigit r', dropWhile isDigit r'))
          else Some ([], s)
      | [] \<Rightarrow> Some ([], s))"

definition scanNumber :: "jsstring \<Rightarrow> (jsstring \<times> jsstring) option" where
  "scanNumber s =
     (let sign = (case s of c # _ \<Rightarrow> if c = 0x2D then [c] else [] | [] \<Rightarrow> [])
      in case scanInteger (drop (length sign) s) of
           None \<Rightarrow> None
         | Some (i, s1) \<Rightarrow>
             (case scanFraction s1 of
                None \<Rightarrow> None
              | Some (f, s2) \<Rightarrow>
                  (case scanExponent s2 of
                     None \<Rightarrow> None
                   | Some (e, s3) \<Rightarrow> Some (sign @ i @ f @ e, s3))))"

datatype token =
    TLBracket | TRBracket | TLBrace | TRBrace | TComma | TColon
  | TString jsstring | TNumber jsstring | TTrue | TFalse | TNull

text \<open>JSON white space: tab, line feed, carriage return and space.\<close>

definition isJsonSpace :: "16 word \<Rightarrow> bool" where
  "isJsonSpace c \<longleftrightarrow> c = 0x09 \<or> c = 0x0A \<or> c = 0x0D \<or> c = 0x20"

definition consTok :: "token \<Rightarrow> token list option \<Rightarrow> token list option" where
  "consTok t r = (case r of None \<Rightarrow> None | Some ts \<Rightarrow> Some (t # ts))"

lemma scanString_shorter: "scanString s = Some (x, r) \<Longrightarrow> length r < length s"
proof (induction s arbitrary: x r rule: scanString.induct)
  case 1
  then show ?case by simp
next
  case (2 c cs)
  show ?case
    using "2.prems" "2.IH"
    apply (simp add: consFst_def split: if_splits list.splits option.splits prod.splits)
    by fastforce+
qed

lemma scanFraction_shorter: "scanFraction s = Some (x, r) \<Longrightarrow> length r \<le> length s"
  by (auto simp: scanFraction_def length_dropWhile_le le_SucI split: list.splits if_splits)

lemma scanExponent_shorter: "scanExponent s = Some (x, r) \<Longrightarrow> length r \<le> length s"
  apply (auto simp: scanExponent_def Let_def split: list.splits if_splits)
  apply (meson le_SucI length_dropWhile_le order_trans length_drop diff_le_self)+
  done

lemma scanInteger_shorter: "scanInteger s = Some (x, r) \<Longrightarrow> length r < length s"
  by (auto simp: scanInteger_def length_dropWhile_le less_Suc_eq_le split: list.splits if_splits)

lemma scanNumber_shorter: "scanNumber s = Some (x, r) \<Longrightarrow> length r < length s"
proof -
  assume h: "scanNumber s = Some (x, r)"
  define sg where "sg = (case s of c # _ \<Rightarrow> if c = 0x2D then [c] else [] | [] \<Rightarrow> [])"
  from h obtain i s1 f s2 e where
    a: "scanInteger (drop (length sg) s) = Some (i, s1)" and
    b: "scanFraction s1 = Some (f, s2)" and
    c: "scanExponent s2 = Some (e, r)"
    unfolding scanNumber_def Let_def sg_def [symmetric]
    by (auto split: option.splits prod.splits)
  from a have "length s1 < length (drop (length sg) s)" by (rule scanInteger_shorter)
  then have "length s1 < length s" by simp
  moreover from b have "length s2 \<le> length s1" by (rule scanFraction_shorter)
  moreover from c have "length r \<le> length s2" by (rule scanExponent_shorter)
  ultimately show ?thesis by simp
qed

text \<open>
  The text is cut into tokens, white space between them skipped; \<open>None\<close> when some
  character starts no token.
\<close>

function tokenize :: "jsstring \<Rightarrow> token list option" where
  "tokenize [] = Some []"
| "tokenize (c # cs) =
     (if isJsonSpace c then tokenize cs
      else if c = 0x5B then consTok TLBracket (tokenize cs)
      else if c = 0x5D then consTok TRBracket (tokenize cs)
      else if c = 0x7B then consTok TLBrace (tokenize cs)
      else if c = 0x7D then consTok TRBrace (tokenize cs)
      else if c = 0x2C then consTok TComma (tokenize cs)
      else if c = 0x3A then consTok TColon (tokenize cs)
      else if c = quoteMark then
        (case scanString cs of
           None \<Rightarrow> None
         | Some (s, r) \<Rightarrow> consTok (TString s) (tokenize r))
      else if c = 0x2D \<or> isDigit c then
        (case scanNumber (c # cs) of
           None \<Rightarrow> None
         | Some (n, r) \<Rightarrow> consTok (TNumber n) (tokenize r))
      else if c = 0x74 \<and> take 3 cs = js ''rue'' then consTok TTrue (tokenize (drop 3 cs))
      else if c = 0x66 \<and> take 4 cs = js ''alse'' then consTok TFalse (tokenize (drop 4 cs))
      else if c = 0x6E \<and> take 3 cs = js ''ull'' then consTok TNull (tokenize (drop 3 cs))
      else None)"
  by pat_completeness auto
termination
  by (relation "measure length")
     (auto dest: scanString_shorter scanNumber_shorter)

subsection \<open>The grammar of JSON values\<close>

text \<open>
  The tokens are read by a pushdown automaton. A frame of the stack is an array or an
  object that is still open, with what it holds so far (latest first); the mode says
  which tokens may come next.
\<close>

datatype frame =
    InArray "json list"
  | InObject "(jsstring \<times> json) list" "jsstring option"

datatype mode =
    WantValue | WantValueOrClose | WantKeyOrClose | WantKey | WantColon
  | WantCommaOrClose | Finished json

type_synonym pstate = "frame list \<times> mode"

text \<open>A complete value goes to the innermost open container, or ends the text.\<close>

fun deliver :: "json \<Rightarrow> frame list \<Rightarrow> pstate option" where
  "deliver v [] = Some ([], Finished v)"
| "deliver v (InArray es # st) = Some (InArray (v # es) # st, WantCommaOrClose)"
| "deliver v (InObject ms (Some k) # st) = Some (InObject ((k, v) # ms) None # st, WantCommaOrClose)"
| "deliver v (InObject ms None # st) = None"

fun startValue :: "frame list \<Rightarrow> token \<Rightarrow> pstate option" where
  "startValue st (TString s) = deliver (JString s) st"
| "startValue st (TNumber n) = deliver (JNumber n) st"
| "startValue st TTrue = deliver (JBool True) st"
| "startValue st TFalse = deliver (JBool False) st"
| "startValue st TNull = deliver JNull st"
| "startValue st TLBracket = Some (InArray [] # st, WantValueOrClose)"
| "startValue st TLBrace = Some (InObject [] None # st, WantKeyOrClose)"
| "startValue st _ = None"

fun closeArray :: "frame list \<Rightarrow> pstate option" where
  "closeArray (InArray es # st) = deliver (JArray (rev es)) st"
| "closeArray _ = None"

fun closeObject :: "frame list \<Rightarrow> pstate option" where
  "closeObject (InObject ms None # st) = deliver (JObject (rev ms)) st"
| "closeObject _ = None"

fun takeKey :: "frame list \<Rightarrow> token \<Rightarrow> pstate option" where
  "takeKey (InObject ms None # st) (TString k) = Some (InObject ms (Some k) # st, WantColon)"
| "takeKey _ _ = None"

fun parseStep :: "pstate \<Rightarrow> token \<Rightarrow> pstate option" where
  "parseStep (st, WantValue) t = startValue st t"
| "parseStep (st, WantValueOrClose) t = (if t = TRBracket then closeArray st else startValue st t)"
| "parseStep (st, WantKeyOrClose) t = (if t = TRBrace then closeObject st else takeKey st t)"
| "parseStep (st, WantKey) t = takeKey st t"
| "parseStep (st, WantColon) t = (if t = TColon then Some (st, WantValue) else None)"
| "parseStep (st, WantCommaOrClose) t =
     (case t of
        TComma \<Rightarrow> (case st of InArray _ # _ \<Rightarrow> Some (st, WantValue)
                         | InObject _ _ # _ \<Rightarrow> Some (st, WantKey)
                         | [] \<Rightarrow> None)
      | TRBracket \<Rightarrow> closeArray st
      | TRBrace \<Rightarrow> closeObject st
      | _ \<Rightarrow> None)"
| "parseStep (st, Finished v) t = None"

fun parseTokens :: "pstate \<Rightarrow> token list \<Rightarrow> pstate option" where
  "parseTokens s [] = Some s"
| "parseTokens s (t # ts) = (case parseStep s t of None \<Rightarrow> None | Some s' \<Rightarrow> parseTokens s' ts)"

datatype jserror = SyntaxError

text \<open>\<^verbatim>\<open>JSON.parse\<close> returns the value of a text that is one JSON value and throws otherwise.\<close>

definition JSON_parse :: "jsstring \<Rightarrow> jserror + json" where
  "JSON_parse s =
     (case tokenize s of
        None \<Rightarrow> Inl SyntaxError
      | Some ts \<Rightarrow>
          (case parseTokens ([], WantValue) ts of
             Some ([], Finished v) \<Rightarrow> Inr v
           | _ \<Rightarrow> Inl SyntaxError))"

section \<open>parseTags and stringifyTags (posts.ts, lines 47-58)\<close>

text \<open>\<^verbatim>\<open>try { return JSON.parse(tagsJson); } catch { return []; }\<close>\<close>

definition parseTags :: "jsstring \<Rightarrow> json" where
  "parseTags tagsJson = (case JSON_parse tagsJson of Inr v \<Rightarrow> v | Inl _ \<Rightarrow> JArray [])"

definition stringifyTags :: "jsstring list \<Rightarrow> jsstring" where
  "stringifyTags tags = JSON_stringify tags"

section \<open>The data model (posts.ts, lines 4-41)\<close>

datatype PostStatus = DRAFT | PUBLISHED

text \<open>A \<^verbatim>\<open>Date\<close> is its time value, the milliseconds since the epoch.\<close>

type_synonym Date = int

text \<open>
  A row of the table \<^verbatim>\<open>Post\<close>, with the type of the column \<^verbatim>\<open>tags\<close> left open:
  the stored row holds the serialized text (\<open>Post\<close>), and \<^verbatim>\<open>PostWithTags\<close> holds what
  \<^verbatim>\<open>parseTags\<close> returns. A column that may be null is an option.
\<close>

record 't PostRow =
  id' :: jsstring
  title :: jsstring
  slug :: jsstring
  summary :: "jsstring option"
  contentMarkdown :: jsstring
  contentHtml :: "jsstring option"
  imageUrl :: "jsstring option"
  tags :: 't
  sourceUrl :: "jsstring option"
  author :: jsstring
  publishedAt :: Date
  status :: PostStatus
  createdAt :: Date
  updatedAt :: Date

type_synonym Post = "jsstring PostRow"

type_synonym PostWithTags = "json PostRow"

text \<open>An optional property that is \<^verbatim>\<open>undefined\<close> is \<open>None\<close>.\<close>

record CreatePostData =
  c_title :: jsstring
  c_slug :: "jsstring option"
  c_summary :: "jsstring option"
  c_contentMarkdown :: "jsstring option"
  c_contentHtml :: "jsstring option"
  c_imageUrl :: "jsstring option"
  c_tags :: "jsstring list option"
  c_sourceUrl :: "jsstring option"
  c_author :: "jsstring option"
  c_publishedAt :: "Date option"
  c_status :: "PostStatus option"

record UpdatePostData =
  u_title :: "jsstring option"
  u_slug :: "jsstring option"
  u_summary :: "jsstring option"
  u_contentMarkdown :: "jsstring option"
  u_contentHtml :: "jsstring option"
  u_imageUrl :: "jsstring option"
  u_tags :: "jsstring list option"
  u_sourceUrl :: "jsstring option"
  u_author :: "jsstring option"
  u_publishedAt :: "Date option"
  u_status :: "PostStatus option"

record PaginatedPosts =
  items :: "PostWithTags list"
  page :: int
  total' :: int
  hasMore :: bool

datatype OrderField = ByPublishedAt | ByUpdatedAt | ByTitle

datatype OrderDir = Asc | Desc

text \<open>
  What a call takes from its surroundings: the clock of the service (\<^verbatim>\<open>new Date()\<close>),
  the clock of the store (its own time stamps), the identifier the store gives a new row,
  the renderer \<^verbatim>\<open>marked\<close>, the built-in \<^verbatim>\<open>toLowerCase\<close>, and the order of the store:
  \<open>precedes env f d a b\<close> says that under \<^verbatim>\<open>orderBy: { f: d }\<close> the store returns the row
  \<open>a\<close> before the row \<open>b\<close>. How the store collates a text column, and which of two rows
  with equal keys it returns first, is the store's matter and not fixed by the repository.
\<close>

record Env =
  now :: Date
  storeNow :: Date
  newId :: jsstring
  marked :: "jsstring \<Rightarrow> jsstring"
  toLowerCase :: "jsstring \<Rightarrow> jsstring"
  precedes :: "OrderField \<Rightarrow> OrderDir \<Rightarrow> Post \<Rightarrow> Post \<Rightarrow> bool"

text \<open>
  \<^verbatim>\<open>a || b\<close> on an optional string: the empty string is falsy, as \<^verbatim>\<open>undefined\<close> is.
\<close>

definition truthy :: "jsstring option \<Rightarrow> bool" where
  "truthy a \<longleftrightarrow> (case a of None \<Rightarrow> False | Some s \<Rightarrow> s \<noteq> [])"

definition orElse :: "jsstring option \<Rightarrow> jsstring \<Rightarrow> jsstring" where
  "orElse a b = (case a of None \<Rightarrow> b | Some s \<Rightarrow> if s \<noteq> [] then s else b)"

section \<open>toPostWithTags (posts.ts, lines 60-66)\<close>

definition toPostWithTags :: "Post \<Rightarrow> PostWithTags" where
  "toPostWithTags post =
     \<lparr> id' = id' post, title = title post, slug = slug post, summary = summary post,
       contentMarkdown = contentMarkdown post, contentHtml = contentHtml post,
       imageUrl = imageUrl post, tags = parseTags (tags post), sourceUrl = sourceUrl post,
       author = author post, publishedAt = publishedAt post, status = status post,
       createdAt = createdAt post, updatedAt = updatedAt post \<rparr>"

section \<open>processContent (posts.ts, lines 79-94)\<close>

record Content =
  r_contentMarkdown :: "jsstring option"
  r_contentHtml :: "jsstring option"

definition processContent ::
  "(jsstring \<Rightarrow> jsstring) \<Rightarrow> jsstring option \<Rightarrow> jsstring option \<Rightarrow> Content" where
  "processContent render dataMarkdown dataHtml =
     (let result0 = \<lparr> r_contentMarkdown = None, r_contentHtml = None \<rparr>;
          result1 =
            (case dataMarkdown of
               Some md \<Rightarrow>
                 if md \<noteq> [] then
                   (let r = result0 \<lparr> r_contentMarkdown := Some md \<rparr>
                    in if \<not> truthy dataHtml then r \<lparr> r_contentHtml := Some (render md) \<rparr> else r)
                 else result0
             | None \<Rightarrow> result0)
      in if truthy dataHtml then result1 \<lparr> r_contentHtml := dataHtml \<rparr> else result1)"

section \<open>The Prisma client on the table of posts\<close>

text \<open>
  The table is the list of its rows in the order of their insertion. The operations of
  the Prisma client that posts.ts calls are modelled after the client's documentation:
  \<^item> \<^verbatim>\<open>create\<close> and \<^verbatim>\<open>update\<close> fail with \<^verbatim>\<open>Unique constraint failed\<close> when the
    primary key \<^verbatim>\<open>id\<close> or the unique column \<^verbatim>\<open>slug\<close> would repeat;
  \<^item> \<^verbatim>\<open>update\<close> fails with \<^verbatim>\<open>Record to update not found\<close> and \<^verbatim>\<open>delete\<close> with
    \<^verbatim>\<open>Record to delete does not exist\<close> when no row has the identifier;
  \<^item> a property of \<^verbatim>\<open>data\<close> that is \<^verbatim>\<open>undefined\<close> is left out of an update (the column
    keeps its value) and is null in a created row;
  \<^item> \<^verbatim>\<open>skip\<close> and \<^verbatim>\<open>take\<close> are 64-bit signed integers: \<^verbatim>\<open>findMany\<close> refuses a value
    outside that range, and a negative \<^verbatim>\<open>skip\<close>;
  \<^item> for a negative \<^verbatim>\<open>take\<close>, \<^verbatim>\<open>findMany\<close> asks for the rows in the opposite direction,
    reads \<open>- take\<close> of them behind the first \<^verbatim>\<open>skip\<close>, and returns them back to front.
  A failed operation leaves the table as it was.
\<close>

datatype PrismaError =
    UniqueConstraintFailed
  | RecordToUpdateNotFound
  | RecordToDeleteDoesNotExist
  | QueryValidationError

type_synonym 'a dbresult = "(PrismaError + 'a) \<times> Post list"

text \<open>
  Modelled from the spec: \<^verbatim>\<open>prisma/schema.prisma\<close> is not among the sources. By the
  specification the identifier is generated at creation, the slug is unique, and
  \<^verbatim>\<open>createdAt\<close> and \<^verbatim>\<open>updatedAt\<close> are maintained by the store. So \<open>wfTable\<close> is the two
  uniqueness constraints of the table, a new row gets the identifier and both time
  stamps from the clock of the store (\<open>prismaCreate\<close>), and an update renews
  \<^verbatim>\<open>updatedAt\<close> from it (\<open>applyWrite\<close>).
\<close>

definition wfTable :: "Post list \<Rightarrow> bool" where
  "wfTable tbl \<longleftrightarrow> distinct (map id' tbl) \<and> distinct (map slug tbl)"

text \<open>
  The data of a write, with \<open>None\<close> for a property that is \<^verbatim>\<open>undefined\<close>. posts.ts
  gives every required column when it creates a row, so what \<open>prismaCreate\<close> writes for
  an absent required column is never used.
\<close>

record WriteData =
  w_title :: "jsstring option"
  w_slug :: "jsstring option"
  w_summary :: "jsstring option"
  w_contentMarkdown :: "jsstring option"
  w_contentHtml :: "jsstring option"
  w_imageUrl :: "jsstring option"
  w_tags :: "jsstring option"
  w_sourceUrl :: "jsstring option"
  w_author :: "jsstring option"
  w_publishedAt :: "Date option"
  w_status :: "PostStatus option"

definition findUniqueById :: "jsstring \<Rightarrow> Post list \<Rightarrow> Post option" where
  "findUniqueById i tbl = find (\<lambda>r. id' r = i) tbl"

definition findUniqueBySlug :: "jsstring \<Rightarrow> Post list \<Rightarrow> Post option" where
  "findUniqueBySlug s tbl = find (\<lambda>r. slug r = s) tbl"

definition prismaCreate :: "Env \<Rightarrow> WriteData \<Rightarrow> Post list \<Rightarrow> Post dbresult" where
  "prismaCreate env d tbl =
     (let row = \<lparr> id' = newId env,
                  title = (case w_title d of Some x \<Rightarrow> x | None \<Rightarrow> []),
                  slug = (case w_slug d of Some x \<Rightarrow> x | None \<Rightarrow> []),
                  summary = w_summary d,
                  contentMarkdown = (case w_contentMarkdown d of Some x \<Rightarrow> x | None \<Rightarrow> []),
                  contentHtml = w_contentHtml d,
                  imageUrl = w_imageUrl d,
                  tags = (case w_tags d of Some x \<Rightarrow> x | None \<Rightarrow> js ''[]''),
                  sourceUrl = w_sourceUrl d,
                  author = (case w_author d of Some x \<Rightarrow> x | None \<Rightarrow> []),
                  publishedAt = (case w_publishedAt d of Some x \<Rightarrow> x | None \<Rightarrow> storeNow env),
                  status = (case w_status d of Some x \<Rightarrow> x | None \<Rightarrow> PUBLISHED),
                  createdAt = storeNow env,
                  updatedAt = storeNow env \<rparr>
      in if findUniqueById (id' row) tbl \<noteq> None \<or> findUniqueBySlug (slug row) tbl \<noteq> None
         then (Inl UniqueConstraintFailed, tbl)
         else (Inr row, tbl @ [row]))"

definition applyWrite :: "Env \<Rightarrow> WriteData \<Rightarrow> Post \<Rightarrow> Post" where
  "applyWrite env d row =
     row \<lparr> title := (case w_title d of Some x \<Rightarrow> x | None \<Rightarrow> title row),
           slug := (case w_slug d of Some x \<Rightarrow> x | None \<Rightarrow> slug row),
           summary := (case w_summary d of Some x \<Rightarrow> Some x | None \<Rightarrow> summary row),
           contentMarkdown :=
             (case w_contentMarkdown d of Some x \<Rightarrow> x | None \<Rightarrow> contentMarkdown row),
           contentHtml := (case w_contentHtml d of Some x \<Rightarrow> Some x | None \<Rightarrow> contentHtml row),
           imageUrl := (case w_imageUrl d of Some x \<Rightarrow> Some x | None \<Rightarrow> imageUrl row),
           tags := (case w_tags d of Some x \<Rightarrow> x | None \<Rightarrow> tags row),
           sourceUrl := (case w_sourceUrl d of Some x \<Rightarrow> Some x | None \<Rightarrow> sourceUrl row),
           author := (case w_author d of Some x \<Rightarrow> x | None \<Rightarrow> author row),
           publishedAt := (case w_publishedAt d of Some x \<Rightarrow> x | None \<Rightarrow> publishedAt row),
           status := (case w_status d of Some x \<Rightarrow> x | None \<Rightarrow> status row),
           updatedAt := storeNow env \<rparr>"

text \<open>The rows of \<open>tbl\<close> with the row of identifier \<open>i\<close> replaced by \<open>row'\<close>.\<close>

definition replaceRow :: "jsstring \<Rightarrow> Post \<Rightarrow> Post list \<Rightarrow> Post list" where
  "replaceRow i row' tbl = map (\<lambda>r. if id' r = i then row' else r) tbl"

definition prismaUpdate :: "Env \<Rightarrow> jsstring \<Rightarrow> WriteData \<Rightarrow> Post list \<Rightarrow> Post dbresult" where
  "prismaUpdate env i d tbl =
     (case findUniqueById i tbl of
        None \<Rightarrow> (Inl RecordToUpdateNotFound, tbl)
      | Some row \<Rightarrow>
          (let row' = applyWrite env d row
           in if slug row' \<noteq> slug row \<and> findUniqueBySlug (slug row') tbl \<noteq> None
              then (Inl UniqueConstraintFailed, tbl)
              else (Inr row', replaceRow i row' tbl)))"

definition prismaDelete :: "jsstring \<Rightarrow> Post list \<Rightarrow> Post dbresult" where
  "prismaDelete i tbl =
     (case findUniqueById i tbl of
        None \<Rightarrow> (Inl RecordToDeleteDoesNotExist, tbl)
      | Some row \<Rightarrow> (Inr row, filter (\<lambda>r. id' r \<noteq> i) tbl))"

text \<open>
  \<^verbatim>\<open>upsert({ where: { slug }, update, create })\<close>: the row of that slug is updated when
  there is one, and the new row is created otherwise.
\<close>

definition prismaUpsert ::
  "Env \<Rightarrow> jsstring \<Rightarrow> WriteData \<Rightarrow> WriteData \<Rightarrow> Post list \<Rightarrow> Post dbresult" where
  "prismaUpsert env s upd cre tbl =
     (case findUniqueBySlug s tbl of
        Some row \<Rightarrow> prismaUpdate env (id' row) upd tbl
      | None \<Rightarrow> prismaCreate env cre tbl)"

text \<open>
  \<^verbatim>\<open>orderBy: { [orderBy]: order }\<close>: the rows in the order of the store. Each row is put
  behind the rows that the store returns before it, so the result is a rearrangement of
  the rows whatever the order of the store is, and it is the list in that order when
  \<open>precedes env f d\<close> is a linear order of the rows.
\<close>

fun insertRow :: "(Post \<Rightarrow> Post \<Rightarrow> bool) \<Rightarrow> Post \<Rightarrow> Post list \<Rightarrow> Post list" where
  "insertRow before r [] = [r]"
| "insertRow before r (x # xs) =
     (if before x r then x # insertRow before r xs else r # x # xs)"

definition orderRows :: "Env \<Rightarrow> OrderField \<Rightarrow> OrderDir \<Rightarrow> Post list \<Rightarrow> Post list" where
  "orderRows env f d rows = foldr (insertRow (precedes env f d)) rows []"

definition reverseDir :: "OrderDir \<Rightarrow> OrderDir" where
  "reverseDir d = (case d of Asc \<Rightarrow> Desc | Desc \<Rightarrow> Asc)"

definition int64 :: "int \<Rightarrow> bool" where
  "int64 n \<longleftrightarrow> - (2 ^ 63) \<le> n \<and> n < 2 ^ 63"

text \<open>\<^verbatim>\<open>where: { status }\<close>, or \<^verbatim>\<open>where: {}\<close> (\<open>None\<close>), which every row matches.\<close>

definition matchesWhere :: "PostStatus option \<Rightarrow> Post \<Rightarrow> bool" where
  "matchesWhere w r \<longleftrightarrow> (case w of None \<Rightarrow> True | Some s \<Rightarrow> status r = s)"

definition findMany ::
  "Env \<Rightarrow> PostStatus option \<Rightarrow> OrderField \<Rightarrow> OrderDir \<Rightarrow> int option \<Rightarrow> int \<Rightarrow> Post list
     \<Rightarrow> PrismaError + Post list" where
  "findMany env w f d skip takeN tbl =
     (let rows = filter (matchesWhere w) tbl;
          sk = (case skip of None \<Rightarrow> 0 | Some k \<Rightarrow> k)
      in if \<not> int64 sk \<or> \<not> int64 takeN \<or> sk < 0 then Inl QueryValidationError
         else if 0 \<le> takeN then Inr (take (nat takeN) (drop (nat sk) (orderRows env f d rows)))
         else Inr (rev (take (nat (- takeN))
                     (drop (nat sk) (orderRows env f (reverseDir d) rows)))))"

definition countRows :: "PostStatus option \<Rightarrow> Post list \<Rightarrow> int" where
  "countRows w tbl = int (length (filter (matchesWhere w) tbl))"

section \<open>PostsService (posts.ts, lines 96-247)\<close>

definition defaultAuthor :: jsstring where
  "defaultAuthor = js ''Teacher AI Academy''"

text \<open>
  The object that \<^verbatim>\<open>createPost\<close> passes as \<^verbatim>\<open>data\<close> and \<^verbatim>\<open>upsertPostBySlug\<close> as
  \<^verbatim>\<open>create\<close>; the \<^verbatim>\<open>update\<close> object of the upsert is the same without the slug.
\<close>

definition createData :: "Env \<Rightarrow> CreatePostData \<Rightarrow> jsstring \<Rightarrow> Content \<Rightarrow> WriteData" where
  "createData env d s content =
     \<lparr> w_title = Some (c_title d),
       w_slug = Some s,
       w_summary = c_summary d,
       w_contentMarkdown = Some (orElse (r_contentMarkdown content) []),
       w_contentHtml = r_contentHtml content,
       w_imageUrl = c_imageUrl d,
       w_tags = Some (stringifyTags (case c_tags d of Some t \<Rightarrow> t | None \<Rightarrow> [])),
       w_sourceUrl = c_sourceUrl d,
       w_author = Some (orElse (c_author d) defaultAuthor),
       w_publishedAt = Some (case c_publishedAt d of Some t \<Rightarrow> t | None \<Rightarrow> now env),
       w_status = Some (case c_status d of Some t \<Rightarrow> t | None \<Rightarrow> PUBLISHED) \<rparr>"

definition withTags :: "Post dbresult \<Rightarrow> (PrismaError + PostWithTags) \<times> Post list" where
  "withTags r = (case r of (Inl e, tbl) \<Rightarrow> (Inl e, tbl) | (Inr post, tbl) \<Rightarrow> (Inr (toPostWithTags post), tbl))"

text \<open>\<^verbatim>\<open>const slug = data.slug || this.generateSlug(data.title)\<close>\<close>

definition slugOf :: "Env \<Rightarrow> CreatePostData \<Rightarrow> jsstring" where
  "slugOf env d = orElse (c_slug d) (generateSlug (toLowerCase env) (c_title d))"

definition createPost ::
  "Env \<Rightarrow> CreatePostData \<Rightarrow> Post list \<Rightarrow> (PrismaError + PostWithTags) \<times> Post list" where
  "createPost env d tbl =
     (let s = slugOf env d;
          content = processContent (marked env) (c_contentMarkdown d) (c_contentHtml d)
      in withTags (prismaCreate env (createData env d s content) tbl))"

text \<open>
  \<^verbatim>\<open>updateData = { ...data, ...content }\<close>: a property of \<^verbatim>\<open>content\<close> replaces the one
  of \<^verbatim>\<open>data\<close> when \<^verbatim>\<open>processContent\<close> has set it. Then the tags, when given, are
  serialized (an array is truthy, also the empty one), and a truthy slug is assigned
  again, which changes nothing: the spread has copied it already.
\<close>

definition updateData :: "UpdatePostData \<Rightarrow> Content \<Rightarrow> WriteData" where
  "updateData d content =
     \<lparr> w_title = u_title d,
       w_slug = u_slug d,
       w_summary = u_summary d,
       w_contentMarkdown =
         (case r_contentMarkdown content of Some x \<Rightarrow> Some x | None \<Rightarrow> u_contentMarkdown d),
       w_contentHtml =
         (case r_contentHtml content of Some x \<Rightarrow> Some x | None \<Rightarrow> u_contentHtml d),
       w_imageUrl = u_imageUrl d,
       w_tags = (case u_tags d of Some t \<Rightarrow> Some (stringifyTags t) | None \<Rightarrow> None),
       w_sourceUrl = u_sourceUrl d,
       w_author = u_author d,
       w_publishedAt = u_publishedAt d,
       w_status = u_status d \<rparr>"

definition updatePost ::
  "Env \<Rightarrow> jsstring \<Rightarrow> UpdatePostData \<Rightarrow> Post list \<Rightarrow> (PrismaError + PostWithTags) \<times> Post list" where
  "updatePost env i d tbl =
     (let content = processContent (marked env) (u_contentMarkdown d) (u_contentHtml d)
      in withTags (prismaUpdate env i (updateData d content) tbl))"

definition deletePost :: "jsstring \<Rightarrow> Post list \<Rightarrow> (PrismaError + unit) \<times> Post list" where
  "deletePost i tbl =
     (case prismaDelete i tbl of
        (Inl e, tbl') \<Rightarrow> (Inl e, tbl')
      | (Inr _, tbl') \<Rightarrow> (Inr (), tbl'))"

definition getPostById :: "jsstring \<Rightarrow> Post list \<Rightarrow> PostWithTags option" where
  "getPostById i tbl = map_option toPostWithTags (findUniqueById i tbl)"

definition getPostBySlug :: "jsstring \<Rightarrow> Post list \<Rightarrow> PostWithTags option" where
  "getPostBySlug s tbl = map_option toPostWithTags (findUniqueBySlug s tbl)"

record GetPostsOptions =
  o_status :: "PostStatus option"
  o_page :: "int option"
  o_limit :: "int option"
  o_orderBy :: "OrderField option"
  o_order :: "OrderDir option"

text \<open>
  The parameter of \<^verbatim>\<open>getPosts\<close> is destructured with defaults:
  \<^verbatim>\<open>{ status = PostStatus.PUBLISHED, page = 1, limit = 10, orderBy = 'publishedAt', order = 'desc' }\<close>.
  The page and the limit are integers, as \<^verbatim>\<open>parseInt\<close> gives them to the routes. The
  source computes with the numbers of JavaScript, whose arithmetic is that of the
  integers as long as the operands and the result are safe integers
  (\<^verbatim>\<open>Number.isSafeInteger\<close>); the model computes with integers, and what is proved about
  \<open>skip\<close> and \<open>hasMore\<close> is stated for safe integers.
\<close>

definition safeInteger :: "int \<Rightarrow> bool" where
  "safeInteger n \<longleftrightarrow> - (2 ^ 53 - 1) \<le> n \<and> n \<le> 2 ^ 53 - 1"

definition statusOf :: "GetPostsOptions \<Rightarrow> PostStatus" where
  "statusOf options = (case o_status options of Some s \<Rightarrow> s | None \<Rightarrow> PUBLISHED)"

definition pageOf :: "GetPostsOptions \<Rightarrow> int" where
  "pageOf options = (case o_page options of Some p \<Rightarrow> p | None \<Rightarrow> 1)"

definition limitOf :: "GetPostsOptions \<Rightarrow> int" where
  "limitOf options = (case o_limit options of Some l \<Rightarrow> l | None \<Rightarrow> 10)"

definition orderByOf :: "GetPostsOptions \<Rightarrow> OrderField" where
  "orderByOf options = (case o_orderBy options of Some f \<Rightarrow> f | None \<Rightarrow> ByPublishedAt)"

definition orderOf :: "GetPostsOptions \<Rightarrow> OrderDir" where
  "orderOf options = (case o_order options of Some d \<Rightarrow> d | None \<Rightarrow> Desc)"

text \<open>
  \<^verbatim>\<open>const where = status ? { status } : {}\<close>: a status is a non-empty string, so the
  filter is always there.
\<close>

definition getPosts ::
  "Env \<Rightarrow> GetPostsOptions \<Rightarrow> Post list \<Rightarrow> PrismaError + PaginatedPosts" where
  "getPosts env options tbl =
     (let status = statusOf options;
          page = pageOf options;
          limit = limitOf options;
          orderBy = orderByOf options;
          order = orderOf options;
          maxLimit = min limit 50;
          skip = (page - 1) * maxLimit;
          whereStatus = Some status;
          total = countRows whereStatus tbl
      in case findMany env whereStatus orderBy order (Some skip) maxLimit tbl of
           Inl e \<Rightarrow> Inl e
         | Inr posts \<Rightarrow>
             Inr \<lparr> items = map toPostWithTags posts,
                   page = page,
                   total' = total,
                   hasMore = (skip + maxLimit < total) \<rparr>)"

text \<open>The values of \<^verbatim>\<open>maxLimit\<close> and \<^verbatim>\<open>skip\<close> in a call of \<^verbatim>\<open>getPosts\<close>.\<close>

definition maxLimitOf :: "GetPostsOptions \<Rightarrow> int" where
  "maxLimitOf options = min (limitOf options) 50"

definition skipOf :: "GetPostsOptions \<Rightarrow> int" where
  "skipOf options = (pageOf options - 1) * maxLimitOf options"

definition getPublishedPostsForRSS ::
  "Env \<Rightarrow> int option \<Rightarrow> Post list \<Rightarrow> PrismaError + PostWithTags list" where
  "getPublishedPostsForRSS env limit tbl =
     (case findMany env (Some PUBLISHED) ByPublishedAt Desc None
             (case limit of Some l \<Rightarrow> l | None \<Rightarrow> 50) tbl of
        Inl e \<Rightarrow> Inl e
      | Inr posts \<Rightarrow> Inr (map toPostWithTags posts))"

definition upsertPostBySlug ::
  "Env \<Rightarrow> CreatePostData \<Rightarrow> Post list \<Rightarrow> (PrismaError + PostWithTags) \<times> Post list" where
  "upsertPostBySlug env d tbl =
     (let s = slugOf env d;
          content = processContent (marked env) (c_contentMarkdown d) (c_contentHtml d);
          cre = createData env d s content
      in withTags (prismaUpsert env s (cre \<lparr> w_slug := None \<rparr>) cre tbl))"

section \<open>The routes\<close>

text \<open>
  A handler answers with a status and, on success, a payload. A query parameter that
  \<^verbatim>\<open>parseInt\<close> reads is given as the integer read, \<open>None\<close> when the result is
  \<^verbatim>\<open>NaN\<close>; \<^verbatim>\<open>parseInt(q) || d\<close> is then \<open>parseIntOr q d\<close>, since \<^verbatim>\<open>NaN\<close> and 0 are falsy.
\<close>

datatype 'a Response = Ok 'a | NotFound | Conflict | InternalError

definition parseIntOr :: "int option \<Rightarrow> int \<Rightarrow> int" where
  "parseIntOr q d = (case q of None \<Rightarrow> d | Some n \<Rightarrow> if n = 0 then d else n)"

text \<open>\<^verbatim>\<open>GET /posts\<close> of the public router (lines 11-37 of its file).\<close>

definition publicPostsRoute ::
  "Env \<Rightarrow> int option \<Rightarrow> int option \<Rightarrow> OrderField option \<Rightarrow> OrderDir option \<Rightarrow> Post list
     \<Rightarrow> PaginatedPosts Response" where
  "publicPostsRoute env qPage qLimit qOrderBy qOrder tbl =
     (let page = parseIntOr qPage 1;
          limit = min (parseIntOr qLimit 10) 50;
          orderBy = (case qOrderBy of Some f \<Rightarrow> f | None \<Rightarrow> ByPublishedAt);
          order = (case qOrder of Some d \<Rightarrow> d | None \<Rightarrow> Desc)
      in case getPosts env \<lparr> o_status = Some PUBLISHED, o_page = Some page,
                             o_limit = Some limit, o_orderBy = Some orderBy,
                             o_order = Some order \<rparr> tbl of
           Inl e \<Rightarrow> InternalError
         | Inr result \<Rightarrow> Ok result)"

text \<open>\<^verbatim>\<open>GET /posts/:slug\<close> of the public router (lines 40-70 of its file).\<close>

definition publicPostBySlugRoute :: "jsstring \<Rightarrow> Post list \<Rightarrow> PostWithTags Response" where
  "publicPostBySlugRoute s tbl =
     (case getPostBySlug s tbl of
        None \<Rightarrow> NotFound
      | Some post \<Rightarrow> if status post \<noteq> PUBLISHED then NotFound else Ok post)"

text \<open>
  \<^verbatim>\<open>GET /\<close> of the RSS router (routes/posts.ts, lines 275-328): the payload is the list
  of posts, each of which becomes one item of the feed.
\<close>

definition rssRoute :: "Env \<Rightarrow> int option \<Rightarrow> Post list \<Rightarrow> PostWithTags list Response" where
  "rssRoute env qLimit tbl =
     (let limit = min (parseIntOr qLimit 50) 100
      in case getPublishedPostsForRSS env (Some limit) tbl of
           Inl e \<Rightarrow> InternalError
         | Inr posts \<Rightarrow> Ok posts)"

text \<open>
  \<^verbatim>\<open>PUT /:id\<close> and \<^verbatim>\<open>DELETE /:id\<close> of the admin router (routes/posts.ts, lines 72-141),
  behind the validation of the body: the handler searches the message of the error for
  \<^verbatim>\<open>Record to update not found\<close>, \<^verbatim>\<open>Unique constraint\<close> and
  \<^verbatim>\<open>Record to delete does not exist\<close>.
\<close>

definition adminUpdateRoute ::
  "Env \<Rightarrow> jsstring \<Rightarrow> UpdatePostData \<Rightarrow> Post list \<Rightarrow> PostWithTags Response \<times> Post list" where
  "adminUpdateRoute env i d tbl =
     (case updatePost env i d tbl of
        (Inr post, tbl') \<Rightarrow> (Ok post, tbl')
      | (Inl e, tbl') \<Rightarrow>
          (if e = RecordToUpdateNotFound then NotFound
           else if e = UniqueConstraintFailed then Conflict
           else InternalError, tbl'))"

definition adminDeleteRoute :: "jsstring \<Rightarrow> Post list \<Rightarrow> unit Response \<times> Post list" where
  "adminDeleteRoute i tbl =
     (case deletePost i tbl of
        (Inr _, tbl') \<Rightarrow> (Ok (), tbl')
      | (Inl e, tbl') \<Rightarrow>
          (if e = RecordToDeleteDoesNotExist then NotFound else InternalError, tbl'))"

definition statusCode :: "'a Response \<Rightarrow> nat" where
  "statusCode r = (case r of Ok _ \<Rightarrow> 200 | NotFound \<Rightarrow> 404 | Conflict \<Rightarrow> 409 | InternalError \<Rightarrow> 500)"

section \<open>Notions of the specification\<close>

text \<open>
  The \<^verbatim>\<open>clamp(limit,1,50)\<close> of the specification's formula for the offset, written out
  to state the formula; posts.ts has \<^verbatim>\<open>Math.min(limit, 50)\<close> in its place.
\<close>

definition specClamp :: "int \<Rightarrow> int \<Rightarrow> int \<Rightarrow> int" where
  "specClamp x lo hi = max lo (min x hi)"

text \<open>The window of a page: \<open>n\<close> rows from the row at \<open>offset\<close>.\<close>

definition pageWindow :: "int \<Rightarrow> int \<Rightarrow> 'a list \<Rightarrow> 'a list" where
  "pageWindow offset n rows = take (nat n) (drop (nat offset) rows)"

text \<open>
  The fields of a stored row are those of a call of \<^verbatim>\<open>upsertPostBySlug\<close> with the data
  \<open>d\<close>: the fields the call always writes, and the optional ones where the call has a
  value for them.
\<close>

definition fieldsOfCall :: "Env \<Rightarrow> CreatePostData \<Rightarrow> Post \<Rightarrow> bool" where
  "fieldsOfCall env d row \<longleftrightarrow>
     (let content = processContent (marked env) (c_contentMarkdown d) (c_contentHtml d)
      in title row = c_title d
       \<and> contentMarkdown row = orElse (r_contentMarkdown content) []
       \<and> tags row = stringifyTags (case c_tags d of Some t \<Rightarrow> t | None \<Rightarrow> [])
       \<and> author row = orElse (c_author d) defaultAuthor
       \<and> publishedAt row = (case c_publishedAt d of Some t \<Rightarrow> t | None \<Rightarrow> now env)
       \<and> status row = (case c_status d of Some t \<Rightarrow> t | None \<Rightarrow> PUBLISHED)
       \<and> updatedAt row = storeNow env
       \<and> (c_summary d \<noteq> None \<longrightarrow> summary row = c_summary d)
       \<and> (r_contentHtml content \<noteq> None \<longrightarrow> contentHtml row = r_contentHtml content)
       \<and> (c_imageUrl d \<noteq> None \<longrightarrow> imageUrl row = c_imageUrl d)
       \<and> (c_sourceUrl d \<noteq> None \<longrightarrow> sourceUrl row = c_sourceUrl d))"


section \<open>Sample data for the concrete evaluations\<close>

definition sampleRenderer :: "jsstring \<Rightarrow> jsstring" where
  "sampleRenderer md = js ''<p>'' @ md @ js ''</p>''"

text \<open>
  A sample order of the store: by the key of the column, a title by its code units
  (the order of the bytes of its UTF-8 form when the titles are ASCII).
\<close>

definition sampleKeyLe :: "OrderField \<Rightarrow> Post \<Rightarrow> Post \<Rightarrow> bool" where
  "sampleKeyLe f a b =
     (case f of
        ByPublishedAt \<Rightarrow> publishedAt a \<le> publishedAt b
      | ByUpdatedAt \<Rightarrow> updatedAt a \<le> updatedAt b
      | ByTitle \<Rightarrow> title a \<le> title b)"

definition sampleOrder :: "OrderField \<Rightarrow> OrderDir \<Rightarrow> Post \<Rightarrow> Post \<Rightarrow> bool" where
  "sampleOrder f d a b = (case d of Asc \<Rightarrow> sampleKeyLe f a b | Desc \<Rightarrow> sampleKeyLe f b a)"

definition env0 :: Env where
  "env0 = \<lparr> now = 1700000000000, storeNow = 1700000000001, newId = js ''new-id'',
             marked = sampleRenderer, toLowerCase = asciiLower, precedes = sampleOrder \<rparr>"

definition env1 :: Env where
  "env1 = env0 \<lparr> now := 1700000060000, storeNow := 1700000060001, newId := js ''later-id'' \<rparr>"

definition samplePost :: "PostStatus \<Rightarrow> nat \<Rightarrow> Post" where
  "samplePost st n =
     \<lparr> id' = js ''id-'' @ [of_nat n], title = js ''Post '' @ [of_nat n],
       slug = js ''post-'' @ [of_nat n], summary = None, contentMarkdown = [],
       contentHtml = Some (js ''<p>text</p>''), imageUrl = None, tags = js ''[]'',
       sourceUrl = None, author = defaultAuthor, publishedAt = int n, status = st,
       createdAt = int n, updatedAt = int n \<rparr>"

definition noData :: CreatePostData where
  "noData = \<lparr> c_title = [], c_slug = None, c_summary = None, c_contentMarkdown = None,
               c_contentHtml = None, c_imageUrl = None, c_tags = None, c_sourceUrl = None,
               c_author = None, c_publishedAt = None, c_status = None \<rparr>"

definition noUpdate :: UpdatePostData where
  "noUpdate = \<lparr> u_title = None, u_slug = None, u_summary = None, u_contentMarkdown = None,
                 u_contentHtml = None, u_imageUrl = None, u_tags = None, u_sourceUrl = None,
                 u_author = None, u_publishedAt = None, u_status = None \<rparr>"

definition noOptions :: GetPostsOptions where
  "noOptions = \<lparr> o_status = None, o_page = None, o_limit = None, o_orderBy = None,
                  o_order = None \<rparr>"

definition pageOptions :: "int \<Rightarrow> int \<Rightarrow> GetPostsOptions" where
  "pageOptions p l =
     \<lparr> o_status = Some PUBLISHED, o_page = Some p, o_limit = Some l,
       o_orderBy = Some ByPublishedAt, o_order = Some Desc \<rparr>"

definition sampleTable :: "nat \<Rightarrow> nat \<Rightarrow> Post list" where
  "sampleTable np nd =
     map (samplePost PUBLISHED) [0..<np] @ map (samplePost DRAFT) [np..<np + nd]"

definition fourPosts :: "Post list" where
  "fourPosts =
     [samplePost PUBLISHED 2, samplePost PUBLISHED 3, samplePost DRAFT 4, samplePost PUBLISHED 5]"

definition twoPosts :: "Post list" where
  "twoPosts = [samplePost PUBLISHED 3, samplePost DRAFT 4]"

text \<open>
  A stored post with a summary, and a payload of the webhook for its slug that has no
  summary.
\<close>

definition storedHello :: Post where
  "storedHello =
     \<lparr> id' = js ''id-1'', title = js ''Hello'', slug = js ''hello'',
       summary = Some (js ''old summary''), contentMarkdown = js ''old'',
       contentHtml = Some (js ''<p>old</p>''), imageUrl = None, tags = js ''[]'',
       sourceUrl = None, author = defaultAuthor, publishedAt = 1600000000000,
       status = PUBLISHED, createdAt = 1600000000000, updatedAt = 1600000000000 \<rparr>"

definition helloPayload :: CreatePostData where
  "helloPayload =
     \<lparr> c_title = js ''Hello'', c_slug = None, c_summary = None,
       c_contentMarkdown = Some (js ''new''), c_contentHtml = None, c_imageUrl = None,
       c_tags = None, c_sourceUrl = None, c_author = None, c_publishedAt = None,
       c_status = Some PUBLISHED \<rparr>"

section \<open>Facts about generateSlug\<close>

text \<open>
  For every title and every lowering function, the slug has only the characters
  \<^verbatim>\<open>[a-z0-9-]\<close> and no two hyphens in a row.
\<close>

lemma replaceRuns_set:
  "set (replaceRuns P s) \<subseteq> insert hyphen {c \<in> set s. \<not> P c}"
proof (induction P s rule: replaceRuns.induct)
  case (1 P)
  show ?case by simp
next
  case (2 P c cs)
  have "set (dropWhile P cs) \<subseteq> set cs"
    by (simp add: set_dropWhileD subsetI)
  with 2 show ?case by (auto split: if_splits)
qed

lemma generateSlug_pre_trim_chars:
  "list_all slugChar (replaceRuns (\<lambda>c. c = hyphen) (replaceRuns isSpace (stripOutsideClass s)))"
proof -
  have a: "set (replaceRuns isSpace (stripOutsideClass s))
             \<subseteq> insert hyphen {c \<in> set (stripOutsideClass s). \<not> isSpace c}"
    by (rule replaceRuns_set)
  have b: "set (replaceRuns (\<lambda>c. c = hyphen) (replaceRuns isSpace (stripOutsideClass s)))
             \<subseteq> insert hyphen (set (replaceRuns isSpace (stripOutsideClass s)))"
    using replaceRuns_set [of "\<lambda>c. c = hyphen" "replaceRuns isSpace (stripOutsideClass s)"]
    by auto
  have "\<And>c. c \<in> set (stripOutsideClass s) \<Longrightarrow> \<not> isSpace c \<Longrightarrow> slugChar c"
    by (auto simp: stripOutsideClass_def inSlugClass_def slugChar_def)
  moreover have "slugChar hyphen"
    by (simp add: slugChar_def)
  ultimately show ?thesis
    using a b unfolding list_all_iff by blast
qed

lemma slugChar_not_space: "slugChar c \<Longrightarrow> \<not> isSpace c"
  by (auto simp: slugChar_def isLowerAZ_def isDigit_def isSpace_def hyphen_def word_le_nat_alt)

lemma trim_no_space: "list_all (\<lambda>c. \<not> isSpace c) s \<Longrightarrow> trim s = s"
proof -
  assume h: "list_all (\<lambda>c. \<not> isSpace c) s"
  have d: "\<And>xs. list_all (\<lambda>c. \<not> isSpace c) xs \<Longrightarrow> dropWhile isSpace xs = xs"
    by (case_tac xs) auto
  from h have "list_all (\<lambda>c. \<not> isSpace c) (rev s)"
    by (simp add: list_all_iff)
  with h show ?thesis
    by (simp add: trim_def d)
qed

lemma replaceRuns_hyphen_no_double:
  "\<not> hasDoubleHyphen (replaceRuns (\<lambda>c. c = hyphen) s)"
proof (induction "\<lambda>c. c = hyphen" s rule: replaceRuns.induct)
  case 1
  show ?case by simp
next
  case (2 c cs)
  show ?case
  proof (cases "c = hyphen")
    case True
    let ?r = "replaceRuns (\<lambda>c. c = hyphen) (dropWhile (\<lambda>c. c = hyphen) cs)"
    from True 2 have ih: "\<not> hasDoubleHyphen ?r" by simp
    have "?r = [] \<or> hd ?r \<noteq> hyphen"
    proof (cases "dropWhile (\<lambda>c. c = hyphen) cs")
      case Nil
      then show ?thesis by (simp del: dropWhile_eq_Nil_conv)
    next
      case (Cons d ds)
      then have "d \<noteq> hyphen"
        by (metis (mono_tags, lifting) hd_dropWhile list.distinct(1) list.sel(1))
      with Cons show ?thesis by simp
    qed
    with ih True show ?thesis
      by (cases ?r) auto
  next
    case False
    with 2 have ih: "\<not> hasDoubleHyphen (replaceRuns (\<lambda>c. c = hyphen) cs)" by simp
    with False show ?thesis
      by (cases "replaceRuns (\<lambda>c. c = hyphen) cs") auto
  qed
qed

lemma generateSlug_chars: "list_all slugChar (generateSlug lower t)"
proof -
  let ?r = "replaceRuns (\<lambda>c. c = hyphen) (replaceRuns isSpace (stripOutsideClass (lower t)))"
  have c: "list_all slugChar ?r" by (rule generateSlug_pre_trim_chars)
  then have "list_all (\<lambda>c. \<not> isSpace c) ?r"
    by (auto simp: list_all_iff dest: slugChar_not_space)
  then have "trim ?r = ?r" by (rule trim_no_space)
  with c show ?thesis by (simp add: generateSlug_def)
qed

lemma generateSlug_no_double_hyphen: "\<not> hasDoubleHyphen (generateSlug lower t)"
proof -
  let ?r = "replaceRuns (\<lambda>c. c = hyphen) (replaceRuns isSpace (stripOutsideClass (lower t)))"
  have "list_all slugChar ?r" by (rule generateSlug_pre_trim_chars)
  then have "list_all (\<lambda>c. \<not> isSpace c) ?r"
    by (auto simp: list_all_iff dest: slugChar_not_space)
  then have "trim ?r = ?r" by (rule trim_no_space)
  then show ?thesis
    using replaceRuns_hyphen_no_double [of "replaceRuns isSpace (stripOutsideClass (lower t))"]
    by (simp add: generateSlug_def)
qed

section \<open>Round trip of the tag encoding\<close>

lemma fromHex_hexDigit: "n < 16 \<Longrightarrow> fromHex (hexDigit n) = Some n"
proof -
  assume "n < 16"
  then have "n \<in> {0,1,2,3,4,5,6,7,8,9,10,11,12,13,14,15}" by (simp; arith)
  then show ?thesis
    by (elim insertE emptyE) (simp_all add: fromHex_def hexDigit_def)
qed

lemma fromHex4_unicodeEscape:
  "fromHex4 (hexDigit (unat c div 4096)) (hexDigit (unat c div 256 mod 16))
     (hexDigit (unat c div 16 mod 16)) (hexDigit (unat c mod 16)) = Some c"
proof -
  define n where "n = unat c"
  have "n < 65536" using unsigned_less [of c, where 'a = nat] by (simp add: n_def)
  then have l1: "n div 4096 < 16" by simp
  have a: "n div 256 = n div 16 div 16" and b: "n div 4096 = n div 16 div 16 div 16"
    by (simp_all add: div_mult2_eq)
  have q: "n div 4096 * 4096 + n div 256 mod 16 * 256 + n div 16 mod 16 * 16 + n mod 16 = n"
    unfolding a b
    using div_mult_mod_eq [of n 16] div_mult_mod_eq [of "n div 16" 16]
      div_mult_mod_eq [of "n div 16 div 16" 16]
    by linarith
  have "of_nat n = c" by (simp add: n_def)
  with q l1 show ?thesis
    unfolding n_def [symmetric]
    by (simp add: fromHex4_def fromHex_hexDigit)
qed

lemma scanString_close: "scanString (quoteMark # r) = Some ([], r)"
  by simp

lemma scanString_literal:
  "c \<noteq> quoteMark \<Longrightarrow> c \<noteq> backslash \<Longrightarrow> \<not> c < 0x20 \<Longrightarrow>
   scanString (c # r) = consFst c (scanString r)"
  by simp

lemma scanString_unicodeEscape:
  "scanString (unicodeEscape c @ r) = consFst c (scanString r)"
  by (simp add: unicodeEscape_def fromHex4_unicodeEscape)

lemma scanString_quoteUnit: "scanString (quoteUnit c @ r) = consFst c (scanString r)"
proof -
  consider "c = 0x08" | "c = 0x09" | "c = 0x0A" | "c = 0x0C" | "c = 0x0D"
    | "c = quoteMark" | "c = backslash"
    | "c \<notin> {0x08, 0x09, 0x0A, 0x0C, 0x0D, quoteMark, backslash}"
      "c < 0x20 \<or> isLeadSurrogate c \<or> isTrailSurrogate c"
    | "c \<notin> {0x08, 0x09, 0x0A, 0x0C, 0x0D, quoteMark, backslash}"
      "\<not> (c < 0x20 \<or> isLeadSurrogate c \<or> isTrailSurrogate c)"
    by blast
  then show ?thesis
  proof cases
    case 8
    then show ?thesis
      by (simp add: quoteUnit_def scanString_unicodeEscape del: scanString.simps)
  next
    case 9
    then have "quoteUnit c = [c]" by (simp add: quoteUnit_def)
    with 9 show ?thesis by (simp add: scanString_literal del: scanString.simps)
  qed (simp_all add: quoteUnit_def unescape_def)
qed

lemma scanString_quoteUnits:
  "scanString (quoteUnits s @ quoteMark # rest) = Some (s, rest)"
proof (induction s rule: quoteUnits.induct)
  case (1 c d cs)
  show ?case
  proof (cases "isLeadSurrogate c \<and> isTrailSurrogate d")
    case True
    then have "c \<noteq> quoteMark" "c \<noteq> backslash" "\<not> c < 0x20"
      "d \<noteq> quoteMark" "d \<noteq> backslash" "\<not> d < 0x20"
      by (auto simp: isLeadSurrogate_def isTrailSurrogate_def
          word_le_nat_alt word_less_nat_alt)
    with True 1 show ?thesis
      by (simp add: scanString_literal consFst_def del: scanString.simps)
  next
    case False
    then have "quoteUnits (c # d # cs) = quoteUnit c @ quoteUnits (d # cs)"
      by auto
    with False 1 show ?thesis
      by (simp add: scanString_quoteUnit consFst_def del: scanString.simps quoteUnits.simps)
  qed
next
  case (2 c)
  show ?case
    by (simp add: scanString_quoteUnit scanString_close consFst_def del: scanString.simps)
next
  case 3
  show ?case by simp
qed

fun arrayTokens :: "jsstring list \<Rightarrow> token list" where
  "arrayTokens [] = []"
| "arrayTokens [x] = [TString x]"
| "arrayTokens (x # y # r) = TString x # TComma # arrayTokens (y # r)"

lemma tokenize_quoted:
  "tokenize (QuoteJSONString x @ r) = consTok (TString x) (tokenize r)"
  by (simp add: QuoteJSONString_def scanString_quoteUnits isJsonSpace_def)

lemma tokenize_joinComma:
  "tokenize (joinComma (map QuoteJSONString xs) @ [0x5D]) = Some (arrayTokens xs @ [TRBracket])"
proof (induction xs rule: arrayTokens.induct)
  case 1
  show ?case by (simp add: isJsonSpace_def consTok_def)
next
  case (2 x)
  show ?case by (simp add: tokenize_quoted isJsonSpace_def consTok_def)
next
  case (3 x y r)
  have "tokenize (0x2C # joinComma (map QuoteJSONString (y # r)) @ [0x5D])
          = consTok TComma (tokenize (joinComma (map QuoteJSONString (y # r)) @ [0x5D]))"
    by (simp add: isJsonSpace_def)
  with 3 show ?case by (simp add: tokenize_quoted consTok_def)
qed

lemma parseTokens_array_rest:
  "parseTokens ([InArray acc], WantValue) (arrayTokens (x # xs) @ [TRBracket])
     = Some ([], Finished (JArray (rev acc @ map JString (x # xs))))"
proof (induction xs arbitrary: acc x)
  case Nil
  show ?case by simp
next
  case (Cons y ys)
  show ?case using Cons [of "JString x # acc" y] by simp
qed

lemma JSON_parse_stringify: "JSON_parse (JSON_stringify xs) = Inr (JArray (map JString xs))"
proof -
  have t: "tokenize (JSON_stringify xs) = Some (TLBracket # arrayTokens xs @ [TRBracket])"
    using tokenize_joinComma [of xs]
    by (simp add: JSON_stringify_def isJsonSpace_def consTok_def)
  have "parseTokens ([], WantValue) (TLBracket # arrayTokens xs @ [TRBracket])
          = Some ([], Finished (JArray (map JString xs)))"
  proof (cases xs)
    case Nil
    then show ?thesis by simp
  next
    case (Cons y ys)
    have "parseTokens ([InArray []], WantValueOrClose) (arrayTokens (y # ys) @ [TRBracket])
            = parseTokens ([InArray []], WantValue) (arrayTokens (y # ys) @ [TRBracket])"
      by (cases ys) simp_all
    with Cons show ?thesis
      using parseTokens_array_rest [of "[]" y ys] by simp
  qed
  with t show ?thesis by (simp add: JSON_parse_def)
qed

section \<open>Facts about the store\<close>

lemma insertRow_length: "length (insertRow before r xs) = Suc (length xs)"
  by (induction xs) simp_all

lemma insertRow_set: "set (insertRow before r xs) = insert r (set xs)"
  by (induction xs) auto

lemma orderRows_length: "length (orderRows env f d rows) = length rows"
  by (induction rows) (simp_all add: orderRows_def insertRow_length)

lemma orderRows_set: "set (orderRows env f d rows) = set rows"
  by (induction rows) (simp_all add: orderRows_def insertRow_set)

text \<open>When the order of the store is linear, \<open>orderRows\<close> returns the rows in that order.\<close>

lemma insertRow_sorted:
  assumes tr: "\<And>a b c. before a b \<Longrightarrow> before b c \<Longrightarrow> before a c"
    and tot: "\<And>a b. before a b \<or> before b a"
  shows "sorted_wrt before xs \<Longrightarrow> sorted_wrt before (insertRow before r xs)"
proof (induction xs)
  case Nil
  then show ?case by simp
next
  case (Cons x xs)
  show ?case
  proof (cases "before x r")
    case True
    with Cons show ?thesis
      by (auto simp: insertRow_set)
  next
    case False
    with tot [of x r] have rx: "before r x" by simp
    with Cons.prems have "\<forall>y \<in> set xs. before r y"
      by (auto intro: tr)
    with False rx Cons.prems show ?thesis
      by simp
  qed
qed

lemma orderRows_sorted:
  assumes "\<And>a b c. precedes env f d a b \<Longrightarrow> precedes env f d b c \<Longrightarrow> precedes env f d a c"
    and "\<And>a b. precedes env f d a b \<or> precedes env f d b a"
  shows "sorted_wrt (precedes env f d) (orderRows env f d rows)"
proof (induction rows)
  case Nil
  then show ?case by (simp add: orderRows_def)
next
  case (Cons r rows)
  have "orderRows env f d (r # rows) = insertRow (precedes env f d) r (orderRows env f d rows)"
    by (simp add: orderRows_def)
  with insertRow_sorted [of "precedes env f d", OF assms Cons] show ?case
    by simp
qed

lemma safeInteger_int64: "safeInteger n \<Longrightarrow> int64 n"
  by (simp add: safeInteger_def int64_def)

lemma int64_small: "- 100 \<le> n \<Longrightarrow> n \<le> 100 \<Longrightarrow> int64 n"
  by (simp add: int64_def)

lemma findMany_window:
  "0 \<le> sk \<Longrightarrow> 0 \<le> tk \<Longrightarrow> int64 sk \<Longrightarrow> int64 tk \<Longrightarrow>
   findMany env w f d (Some sk) tk tbl
     = Inr (take (nat tk) (drop (nat sk) (orderRows env f d (filter (matchesWhere w) tbl))))"
  by (simp add: findMany_def Let_def)

lemma findMany_backwards:
  "0 \<le> sk \<Longrightarrow> tk < 0 \<Longrightarrow> int64 sk \<Longrightarrow> int64 tk \<Longrightarrow>
   findMany env w f d (Some sk) tk tbl
     = Inr (rev (take (nat (- tk))
         (drop (nat sk) (orderRows env f (reverseDir d) (filter (matchesWhere w) tbl)))))"
  by (simp add: findMany_def Let_def)

lemma findMany_negative_skip:
  "sk < 0 \<Longrightarrow> findMany env w f d (Some sk) tk tbl = Inl QueryValidationError"
  by (simp add: findMany_def Let_def)

lemma findMany_out_of_range:
  "\<not> int64 sk \<or> \<not> int64 tk \<Longrightarrow> findMany env w f d (Some sk) tk tbl = Inl QueryValidationError"
  by (auto simp: findMany_def Let_def)

lemma findMany_matches:
  "findMany env w f d sk tk tbl = Inr ps \<Longrightarrow> set ps \<subseteq> {r \<in> set tbl. matchesWhere w r}"
proof -
  assume h: "findMany env w f d sk tk tbl = Inr ps"
  define rows where "rows = orderRows env f d (filter (matchesWhere w) tbl)"
  define bwd where "bwd = orderRows env f (reverseDir d) (filter (matchesWhere w) tbl)"
  define k where "k = (case sk of None \<Rightarrow> 0 | Some k \<Rightarrow> nat k)"
  have s: "set rows = {r \<in> set tbl. matchesWhere w r}"
    "set bwd = {r \<in> set tbl. matchesWhere w r}"
    by (simp_all add: rows_def bwd_def orderRows_set)
  have a: "set (take (nat tk) (drop k rows)) \<subseteq> set rows"
    using set_take_subset [of "nat tk" "drop k rows"] set_drop_subset [of k rows]
    by (rule subset_trans)
  have b: "set (rev (take (nat (- tk)) (drop k bwd))) \<subseteq> set bwd"
    using set_take_subset [of "nat (- tk)" "drop k bwd"] set_drop_subset [of k bwd]
    by auto
  from h have "ps = take (nat tk) (drop k rows) \<or> ps = rev (take (nat (- tk)) (drop k bwd))"
    unfolding findMany_def Let_def rows_def [symmetric] bwd_def [symmetric] k_def
    by (cases sk) (simp_all split: if_splits)
  with a b s show ?thesis by blast
qed

lemma toPostWithTags_status: "status (toPostWithTags p) = status p"
  by (simp add: toPostWithTags_def)

lemma prismaUpdate_missing:
  "findUniqueById i tbl = None \<Longrightarrow> prismaUpdate env i d tbl = (Inl RecordToUpdateNotFound, tbl)"
  by (simp add: prismaUpdate_def)

lemma prismaDelete_missing:
  "findUniqueById i tbl = None \<Longrightarrow> prismaDelete i tbl = (Inl RecordToDeleteDoesNotExist, tbl)"
  by (simp add: prismaDelete_def)

lemma findUniqueById_None: "findUniqueById i tbl = None \<longleftrightarrow> i \<notin> set (map id' tbl)"
  by (auto simp: findUniqueById_def find_None_iff)

lemma matchesWhere_Some: "matchesWhere (Some st) = (\<lambda>p. status p = st)"
  by (rule ext) (simp add: matchesWhere_def)

lemmas optionsOf_defs = statusOf_def pageOf_def limitOf_def orderByOf_def orderOf_def
  maxLimitOf_def skipOf_def

lemma getPosts_findMany:
  "getPosts env options tbl =
     (case findMany env (Some (statusOf options)) (orderByOf options) (orderOf options)
             (Some (skipOf options)) (maxLimitOf options) tbl of
        Inl e \<Rightarrow> Inl e
      | Inr posts \<Rightarrow>
          Inr \<lparr> items = map toPostWithTags posts,
                page = pageOf options,
                total' = countRows (Some (statusOf options)) tbl,
                hasMore = (skipOf options + maxLimitOf options
                             < countRows (Some (statusOf options)) tbl) \<rparr>)"
  unfolding getPosts_def Let_def skipOf_def maxLimitOf_def
  by (rule refl)

lemma getPosts_refused:
  "skipOf options < 0 \<Longrightarrow> getPosts env options tbl = Inl QueryValidationError"
  by (simp add: getPosts_findMany findMany_negative_skip)

lemma getPosts_forward:
  assumes "0 \<le> skipOf options" and "0 \<le> maxLimitOf options"
    and "int64 (skipOf options)" and "int64 (maxLimitOf options)"
  shows "getPosts env options tbl =
     Inr \<lparr> items = map toPostWithTags
               (pageWindow (skipOf options) (maxLimitOf options)
                 (orderRows env (orderByOf options) (orderOf options)
                    (filter (\<lambda>p. status p = statusOf options) tbl))),
           page = pageOf options,
           total' = int (length (filter (\<lambda>p. status p = statusOf options) tbl)),
           hasMore = (skipOf options + maxLimitOf options
                        < int (length (filter (\<lambda>p. status p = statusOf options) tbl))) \<rparr>"
  unfolding getPosts_findMany
  by (simp only: findMany_window [OF assms] sum.case countRows_def matchesWhere_Some
      pageWindow_def)

lemma getPosts_backward:
  assumes "0 \<le> skipOf options" and "maxLimitOf options < 0"
    and "int64 (skipOf options)" and "int64 (maxLimitOf options)"
  shows "getPosts env options tbl =
     Inr \<lparr> items = map toPostWithTags
               (rev (pageWindow (skipOf options) (- maxLimitOf options)
                 (orderRows env (orderByOf options) (reverseDir (orderOf options))
                    (filter (\<lambda>p. status p = statusOf options) tbl)))),
           page = pageOf options,
           total' = int (length (filter (\<lambda>p. status p = statusOf options) tbl)),
           hasMore = (skipOf options + maxLimitOf options
                        < int (length (filter (\<lambda>p. status p = statusOf options) tbl))) \<rparr>"
  unfolding getPosts_findMany
  by (simp only: findMany_backwards [OF assms] sum.case countRows_def matchesWhere_Some
      pageWindow_def)

lemma getPosts_cases:
  assumes i: "int64 (skipOf options)" and m: "int64 (maxLimitOf options)"
  shows "getPosts env options tbl =
      (if skipOf options < 0 then Inl QueryValidationError
       else Inr \<lparr> items = map toPostWithTags
                     (if 0 \<le> maxLimitOf options
                      then pageWindow (skipOf options) (maxLimitOf options)
                             (orderRows env (orderByOf options) (orderOf options)
                                (filter (\<lambda>p. status p = statusOf options) tbl))
                      else rev (pageWindow (skipOf options) (- maxLimitOf options)
                             (orderRows env (orderByOf options) (reverseDir (orderOf options))
                                (filter (\<lambda>p. status p = statusOf options) tbl)))),
                  page = pageOf options,
                  total' = int (length (filter (\<lambda>p. status p = statusOf options) tbl)),
                  hasMore = (skipOf options + maxLimitOf options
                               < int (length (filter (\<lambda>p. status p = statusOf options) tbl))) \<rparr>)"
proof (cases "skipOf options < 0")
  case True
  then show ?thesis
    by (simp add: getPosts_refused)
next
  case False
  then have s: "0 \<le> skipOf options" by simp
  show ?thesis
  proof (cases "0 \<le> maxLimitOf options")
    case True
    from getPosts_forward [OF s True i m, of env tbl] s True show ?thesis
      by simp
  next
    case False
    then have n: "maxLimitOf options < 0" by simp
    from getPosts_backward [OF s n i m, of env tbl] s n show ?thesis
      by simp
  qed
qed

text \<open>A filter and the filter with the defaults written out are the same call.\<close>

lemma getPosts_defaults:
  "getPosts env options tbl
     = getPosts env
         \<lparr> o_status = Some (case o_status options of Some s \<Rightarrow> s | None \<Rightarrow> PUBLISHED),
           o_page = Some (case o_page options of Some p \<Rightarrow> p | None \<Rightarrow> 1),
           o_limit = Some (case o_limit options of Some l \<Rightarrow> l | None \<Rightarrow> 10),
           o_orderBy = Some (case o_orderBy options of Some f \<Rightarrow> f | None \<Rightarrow> ByPublishedAt),
           o_order = Some (case o_order options of Some d \<Rightarrow> d | None \<Rightarrow> Desc) \<rparr> tbl"
  by (simp add: getPosts_def optionsOf_defs)

text \<open>The pages of a positive page number and a limit that is not negative.\<close>

lemma skipOf_bounds:
  assumes "1 \<le> pageOf options" and "0 \<le> limitOf options" and "safeInteger (pageOf options)"
  shows "0 \<le> skipOf options" and "0 \<le> maxLimitOf options"
    and "int64 (skipOf options)" and "int64 (maxLimitOf options)"
proof -
  from assms(2) show m: "0 \<le> maxLimitOf options"
    by (simp add: maxLimitOf_def)
  from assms(1) m show s: "0 \<le> skipOf options"
    by (simp add: skipOf_def)
  have u: "maxLimitOf options \<le> 50"
    by (simp add: maxLimitOf_def)
  from assms(3) have "pageOf options - 1 \<le> 2 ^ 53"
    by (simp add: safeInteger_def)
  with u assms(1) m have "(pageOf options - 1) * maxLimitOf options \<le> 2 ^ 53 * 50"
    by (intro mult_mono) simp_all
  with s show "int64 (skipOf options)"
    by (simp add: skipOf_def int64_def)
  from m u show "int64 (maxLimitOf options)"
    by (simp add: int64_def)
qed

lemma getPosts_explicit:
  assumes "1 \<le> pageOf options" and "0 \<le> limitOf options" and "safeInteger (pageOf options)"
  shows "getPosts env options tbl =
     Inr \<lparr> items = map toPostWithTags
               (pageWindow (skipOf options) (maxLimitOf options)
                 (orderRows env (orderByOf options) (orderOf options)
                    (filter (\<lambda>p. status p = statusOf options) tbl))),
           page = pageOf options,
           total' = int (length (filter (\<lambda>p. status p = statusOf options) tbl)),
           hasMore = (skipOf options + maxLimitOf options
                        < int (length (filter (\<lambda>p. status p = statusOf options) tbl))) \<rparr>"
  by (rule getPosts_forward [OF skipOf_bounds [OF assms]])

lemma pageWindow_length:
  "0 \<le> off \<Longrightarrow> 0 \<le> sz \<Longrightarrow>
   length (pageWindow off sz rows) = min (nat sz) (length rows - nat off)"
  by (simp add: pageWindow_def)

lemma status_samplePost: "status (samplePost st n) = st"
  by (simp add: samplePost_def)

lemma sampleTable_published:
  "filter (\<lambda>p. status p = PUBLISHED) (sampleTable np nd) = map (samplePost PUBLISHED) [0..<np]"
  by (simp add: sampleTable_def filter_map comp_def status_samplePost)

lemma sampleTable_published_count:
  "length (filter (\<lambda>p. status p = PUBLISHED) (sampleTable np nd)) = np"
  by (simp add: sampleTable_published)

lemma sampleTable_draft_count:
  "length (filter (\<lambda>p. status p = DRAFT) (sampleTable np nd)) = nd"
  by (simp add: sampleTable_def filter_map comp_def status_samplePost)

lemma findMany_no_skip:
  "0 \<le> tk \<Longrightarrow> int64 tk \<Longrightarrow>
   findMany env w f d None tk tbl
     = Inr (take (nat tk) (orderRows env f d (filter (matchesWhere w) tbl)))"
  by (simp add: findMany_def Let_def int64_def)



lemma rss_explicit:
  "0 \<le> lim \<Longrightarrow> int64 lim \<Longrightarrow>
   getPublishedPostsForRSS env (Some lim) tbl
     = Inr (map toPostWithTags
         (take (nat lim)
            (orderRows env ByPublishedAt Desc (filter (\<lambda>p. status p = PUBLISHED) tbl))))"
  by (simp add: getPublishedPostsForRSS_def findMany_no_skip matchesWhere_Some)


lemma getPosts_items_status:
  assumes "getPosts env options tbl = Inr r"
  shows "\<forall>p \<in> set (items r). status p = statusOf options"
proof -
  from assms obtain ps where
    f: "findMany env (Some (statusOf options)) (orderByOf options) (orderOf options)
          (Some (skipOf options)) (maxLimitOf options) tbl = Inr ps"
    and i: "items r = map toPostWithTags ps"
    unfolding getPosts_findMany
    by (auto split: sum.splits)
  from findMany_matches [OF f] have "\<forall>p \<in> set ps. status p = statusOf options"
    by (auto simp: matchesWhere_def)
  with i show ?thesis
    by (simp add: toPostWithTags_status)
qed

lemma getPosts_total:
  assumes "getPosts env options tbl = Inr r"
  shows "total' r = int (length (filter (\<lambda>p. status p = statusOf options) tbl))"
  using assms unfolding getPosts_findMany
  by (auto simp: countRows_def matchesWhere_Some split: sum.splits)

lemma rss_items_status:
  assumes "getPublishedPostsForRSS env lim tbl = Inr ps"
  shows "\<forall>p \<in> set ps. status p = PUBLISHED"
proof -
  from assms obtain rows where
    f: "findMany env (Some PUBLISHED) ByPublishedAt Desc None
          (case lim of Some l \<Rightarrow> l | None \<Rightarrow> 50) tbl = Inr rows"
    and i: "ps = map toPostWithTags rows"
    unfolding getPublishedPostsForRSS_def
    by (auto split: sum.splits)
  from findMany_matches [OF f] have "\<forall>p \<in> set rows. status p = PUBLISHED"
    by (auto simp: matchesWhere_def)
  with i show ?thesis by (simp add: toPostWithTags_status)
qed

lemma find_samples:
  "findUniqueBySlug (js ''post-'' @ [4]) [samplePost PUBLISHED 3, samplePost DRAFT 4]
     = Some (samplePost DRAFT 4)"
  "findUniqueBySlug (js ''post-'' @ [3]) [samplePost PUBLISHED 3, samplePost DRAFT 4]
     = Some (samplePost PUBLISHED 3)"
  by (simp_all add: findUniqueBySlug_def samplePost_def)

lemma processContent_rendered:
  "md \<noteq> [] \<Longrightarrow> \<not> truthy html \<Longrightarrow>
   processContent render (Some md) html
     = \<lparr> r_contentMarkdown = Some md, r_contentHtml = Some (render md) \<rparr>"
  by (simp add: processContent_def Let_def)

lemma processContent_given_html:
  "truthy html \<Longrightarrow> r_contentHtml (processContent render md html) = html"
  by (simp add: processContent_def Let_def)

lemma processContent_nothing:
  "\<not> truthy md \<Longrightarrow> \<not> truthy html \<Longrightarrow>
   processContent render md html = \<lparr> r_contentMarkdown = None, r_contentHtml = None \<rparr>"
  by (auto simp: processContent_def Let_def truthy_def split: option.splits)

lemma prismaCreate_Inr:
  assumes "prismaCreate env w tbl = (Inr row, tbl')"
  shows "tbl' = tbl @ [row] \<and> id' row = newId env \<and> findUniqueById (newId env) tbl = None
       \<and> contentHtml row = w_contentHtml w
       \<and> tags row = (case w_tags w of Some x \<Rightarrow> x | None \<Rightarrow> js ''[]'')"
  using assms unfolding prismaCreate_def Let_def
  by (auto split: if_splits)

lemma createPost_Inr:
  assumes "createPost env d tbl = (Inr p, tbl')"
  shows "\<exists>row. tbl' = tbl @ [row] \<and> p = toPostWithTags row \<and> id' row = newId env
           \<and> findUniqueById (newId env) tbl = None
           \<and> contentHtml row
               = r_contentHtml (processContent (marked env) (c_contentMarkdown d) (c_contentHtml d))
           \<and> tags row = stringifyTags (case c_tags d of Some t \<Rightarrow> t | None \<Rightarrow> [])"
proof -
  define w where "w = createData env d (slugOf env d)
      (processContent (marked env) (c_contentMarkdown d) (c_contentHtml d))"
  from assms have "withTags (prismaCreate env w tbl) = (Inr p, tbl')"
    by (simp add: createPost_def Let_def w_def)
  then obtain row where c: "prismaCreate env w tbl = (Inr row, tbl')" and p: "p = toPostWithTags row"
    by (auto simp: withTags_def split: prod.splits sum.splits)
  have "w_contentHtml w
          = r_contentHtml (processContent (marked env) (c_contentMarkdown d) (c_contentHtml d))"
    and "w_tags w = Some (stringifyTags (case c_tags d of Some t \<Rightarrow> t | None \<Rightarrow> []))"
    by (simp_all add: w_def createData_def)
  with prismaCreate_Inr [OF c] p show ?thesis by simp
qed

lemma createPost_empty_table:
  "createPost env d [] =
     (let row = \<lparr> id' = newId env, title = c_title d,
                  slug = slugOf env d,
                  summary = c_summary d,
                  contentMarkdown = orElse (r_contentMarkdown
                    (processContent (marked env) (c_contentMarkdown d) (c_contentHtml d))) [],
                  contentHtml = r_contentHtml
                    (processContent (marked env) (c_contentMarkdown d) (c_contentHtml d)),
                  imageUrl = c_imageUrl d,
                  tags = stringifyTags (case c_tags d of Some t \<Rightarrow> t | None \<Rightarrow> []),
                  sourceUrl = c_sourceUrl d,
                  author = orElse (c_author d) defaultAuthor,
                  publishedAt = (case c_publishedAt d of Some t \<Rightarrow> t | None \<Rightarrow> now env),
                  status = (case c_status d of Some t \<Rightarrow> t | None \<Rightarrow> PUBLISHED),
                  createdAt = storeNow env, updatedAt = storeNow env \<rparr>
      in (Inr (toPostWithTags row), [row]))"
  by (simp add: createPost_def Let_def prismaCreate_def createData_def withTags_def
      findUniqueById_def findUniqueBySlug_def)

lemma find_Some_mem: "find P xs = Some x \<Longrightarrow> x \<in> set xs \<and> P x"
  by (induction xs) (auto split: if_splits)

lemma find_distinct_key:
  "distinct (map f xs) \<Longrightarrow> x \<in> set xs \<Longrightarrow> find (\<lambda>r. f r = f x) xs = Some x"
  by (induction xs) (auto simp: image_iff)

lemma findUniqueBySlug_Some:
  "findUniqueBySlug s tbl = Some row \<Longrightarrow> row \<in> set tbl \<and> slug row = s"
  unfolding findUniqueBySlug_def by (rule find_Some_mem)

lemma findUniqueById_row:
  "wfTable tbl \<Longrightarrow> row \<in> set tbl \<Longrightarrow> findUniqueById (id' row) tbl = Some row"
  unfolding findUniqueById_def wfTable_def by (simp add: find_distinct_key)

lemma findUniqueBySlug_row:
  "wfTable tbl \<Longrightarrow> row \<in> set tbl \<Longrightarrow> findUniqueBySlug (slug row) tbl = Some row"
  unfolding findUniqueBySlug_def wfTable_def by (simp add: find_distinct_key)

lemma replaceRow_length: "length (replaceRow i row' tbl) = length tbl"
  by (simp add: replaceRow_def)

lemma replaceRow_map:
  assumes "distinct (map id' tbl)" and "row \<in> set tbl" and "f row' = f row"
  shows "map f (replaceRow (id' row) row' tbl) = map f tbl"
proof -
  have "\<And>r. r \<in> set tbl \<Longrightarrow> id' r = id' row \<Longrightarrow> r = row"
    using assms(1,2) by (meson distinct_map inj_onD)
  with assms(3) show ?thesis
    unfolding replaceRow_def by (auto simp: map_eq_conv)
qed

lemma replaceRow_mem:
  "row \<in> set tbl \<Longrightarrow> row' \<in> set (replaceRow (id' row) row' tbl)"
  unfolding replaceRow_def by (auto simp: image_iff)

lemma replaceRow_others:
  "r \<in> set tbl \<Longrightarrow> id' r \<noteq> i \<Longrightarrow> r \<in> set (replaceRow i row' tbl)"
  unfolding replaceRow_def by (auto simp: image_iff)

lemma applyWrite_frame:
  "id' (applyWrite env w row) = id' row"
  "createdAt (applyWrite env w row) = createdAt row"
  "w_slug w = None \<Longrightarrow> slug (applyWrite env w row) = slug row"
  by (simp_all add: applyWrite_def)

text \<open>The update branch of the upsert.\<close>

lemma prismaUpsert_existing:
  assumes wf: "wfTable tbl" and f: "findUniqueBySlug s tbl = Some row" and n: "w_slug upd = None"
  shows "prismaUpsert env s upd cre tbl
           = (Inr (applyWrite env upd row), replaceRow (id' row) (applyWrite env upd row) tbl)"
proof -
  from findUniqueBySlug_Some [OF f] have m: "row \<in> set tbl" by simp
  from findUniqueById_row [OF wf m] applyWrite_frame(3) [OF n, of env row] f show ?thesis
    by (simp add: prismaUpsert_def prismaUpdate_def Let_def)
qed

lemma replaceRow_wf:
  assumes wf: "wfTable tbl" and m: "row \<in> set tbl"
    and i: "id' row' = id' row" and s: "slug row' = slug row"
  shows "wfTable (replaceRow (id' row) row' tbl)"
proof -
  from wf have d: "distinct (map id' tbl)" by (simp add: wfTable_def)
  from replaceRow_map [OF d m i] replaceRow_map [OF d m s] wf show ?thesis
    by (simp add: wfTable_def)
qed

text \<open>The create branch of the upsert.\<close>

lemma prismaUpsert_new:
  assumes f: "findUniqueBySlug s tbl = None" and i: "findUniqueById (newId env) tbl = None"
    and c: "w_slug cre = Some s"
  shows "\<exists>row. prismaUpsert env s upd cre tbl = (Inr row, tbl @ [row])
           \<and> slug row = s \<and> id' row = newId env"
  using f i c by (simp add: prismaUpsert_def prismaCreate_def Let_def)

lemma wfTable_append:
  "wfTable tbl \<Longrightarrow> findUniqueBySlug (slug row) tbl = None \<Longrightarrow>
   findUniqueById (id' row) tbl = None \<Longrightarrow> wfTable (tbl @ [row])"
  by (auto simp: wfTable_def findUniqueBySlug_def findUniqueById_def find_None_iff)

lemma count_distinct_key:
  "distinct (map f xs) \<Longrightarrow> x \<in> set xs \<Longrightarrow> length (filter (\<lambda>r. f r = f x) xs) = 1"
proof (induction xs)
  case Nil
  then show ?case by simp
next
  case (Cons a xs)
  show ?case
  proof (cases "f a = f x")
    case True
    with Cons.prems have "\<forall>r \<in> set xs. f r \<noteq> f x"
      by (auto simp: image_iff)
    then have "filter (\<lambda>r. f r = f x) xs = []"
      by (simp add: filter_empty_conv)
    with True show ?thesis by simp
  next
    case False
    with Cons.prems have "x \<in> set xs" by auto
    with Cons False show ?thesis by simp
  qed
qed

lemma count_slug_wf:
  "wfTable tbl \<Longrightarrow> row \<in> set tbl \<Longrightarrow> length (filter (\<lambda>r. slug r = slug row) tbl) = 1"
  unfolding wfTable_def by (simp add: count_distinct_key)

lemma upsert_existing:
  assumes wf: "wfTable tbl" and f: "findUniqueBySlug (slugOf env d) tbl = Some row"
  defines "row' \<equiv> applyWrite env
      ((createData env d (slugOf env d)
          (processContent (marked env) (c_contentMarkdown d) (c_contentHtml d)))
        \<lparr> w_slug := None \<rparr>) row"
  shows "upsertPostBySlug env d tbl = (Inr (toPostWithTags row'), replaceRow (id' row) row' tbl)"
    and "wfTable (replaceRow (id' row) row' tbl)"
    and "findUniqueBySlug (slugOf env d) (replaceRow (id' row) row' tbl) = Some row'"
    and "id' row' = id' row" and "slug row' = slug row" and "createdAt row' = createdAt row"
    and "fieldsOfCall env d row'"
proof -
  from findUniqueBySlug_Some [OF f] have m: "row \<in> set tbl" and s: "slug row = slugOf env d"
    by simp_all
  show u: "upsertPostBySlug env d tbl = (Inr (toPostWithTags row'), replaceRow (id' row) row' tbl)"
    unfolding upsertPostBySlug_def Let_def row'_def
    by (subst prismaUpsert_existing [OF wf f]) (simp_all add: withTags_def)
  show i: "id' row' = id' row" and s': "slug row' = slug row"
    and "createdAt row' = createdAt row"
    by (simp_all add: row'_def applyWrite_def)
  from replaceRow_wf [OF wf m i s']
  show w: "wfTable (replaceRow (id' row) row' tbl)" .
  from findUniqueBySlug_row [OF w replaceRow_mem [OF m, of row']] s s'
  show "findUniqueBySlug (slugOf env d) (replaceRow (id' row) row' tbl) = Some row'"
    by simp
  show "fieldsOfCall env d row'"
    by (auto simp: fieldsOfCall_def Let_def row'_def applyWrite_def createData_def)
qed

lemma upsert_new:
  assumes wf: "wfTable tbl" and f: "findUniqueBySlug (slugOf env d) tbl = None"
    and i: "findUniqueById (newId env) tbl = None"
  shows "\<exists>row'. upsertPostBySlug env d tbl = (Inr (toPostWithTags row'), tbl @ [row'])
           \<and> wfTable (tbl @ [row'])
           \<and> findUniqueBySlug (slugOf env d) (tbl @ [row']) = Some row'"
proof -
  define cre where "cre = createData env d (slugOf env d)
      (processContent (marked env) (c_contentMarkdown d) (c_contentHtml d))"
  have c: "w_slug cre = Some (slugOf env d)"
    by (simp add: cre_def createData_def)
  from prismaUpsert_new [OF f i c, of "cre \<lparr> w_slug := None \<rparr>"] obtain row' where
    u: "prismaUpsert env (slugOf env d) (cre \<lparr> w_slug := None \<rparr>) cre tbl = (Inr row', tbl @ [row'])"
    and s: "slug row' = slugOf env d" and n: "id' row' = newId env"
    by blast
  from u have 1: "upsertPostBySlug env d tbl = (Inr (toPostWithTags row'), tbl @ [row'])"
    by (simp add: upsertPostBySlug_def Let_def cre_def [symmetric] withTags_def)
  from wfTable_append [of tbl row'] wf f i s n have 2: "wfTable (tbl @ [row'])"
    by simp
  from findUniqueBySlug_row [OF 2, of row'] s
  have 3: "findUniqueBySlug (slugOf env d) (tbl @ [row']) = Some row'"
    by simp
  from 1 2 3 show ?thesis by blast
qed


text \<open>
  Two upserts of the same data both succeed, the second adds no row, and one row has the
  slug.
\<close>

lemma upsertPostBySlug_twice:
  assumes wf: "wfTable tbl" and fresh: "findUniqueById (newId env) tbl = None"
    and s2: "slugOf env2 d = slugOf env d"
  shows "\<exists>row1 tbl1 row2 tbl2.
           upsertPostBySlug env d tbl = (Inr (toPostWithTags row1), tbl1)
         \<and> upsertPostBySlug env2 d tbl1 = (Inr (toPostWithTags row2), tbl2)
         \<and> length tbl2 = length tbl1
         \<and> length (filter (\<lambda>r. slug r = slugOf env d) tbl2) = 1"
proof -
  have "\<exists>row1 tbl1. upsertPostBySlug env d tbl = (Inr (toPostWithTags row1), tbl1)
          \<and> wfTable tbl1 \<and> findUniqueBySlug (slugOf env d) tbl1 = Some row1"
  proof (cases "findUniqueBySlug (slugOf env d) tbl")
    case None
    from upsert_new [OF wf None fresh] show ?thesis by blast
  next
    case (Some row)
    from upsert_existing(1,2,3) [OF wf Some] show ?thesis by blast
  qed
  then obtain row1 tbl1 where
    u1: "upsertPostBySlug env d tbl = (Inr (toPostWithTags row1), tbl1)"
    and wf1: "wfTable tbl1" and f1: "findUniqueBySlug (slugOf env2 d) tbl1 = Some row1"
    unfolding s2 by blast
  define row2 where "row2 = applyWrite env2
      ((createData env2 d (slugOf env2 d)
          (processContent (marked env2) (c_contentMarkdown d) (c_contentHtml d)))
        \<lparr> w_slug := None \<rparr>) row1"
  note e = upsert_existing [OF wf1 f1, folded row2_def]
  from findUniqueBySlug_Some [OF e(3)] have m2: "row2 \<in> set (replaceRow (id' row1) row2 tbl1)"
    and sl: "slug row2 = slugOf env d"
    unfolding s2 by simp_all
  from count_slug_wf [OF e(2) m2] sl
  have c: "length (filter (\<lambda>r. slug r = slugOf env d) (replaceRow (id' row1) row2 tbl1)) = 1"
    by simp
  have l: "length (replaceRow (id' row1) row2 tbl1) = length tbl1"
    by (rule replaceRow_length)
  from u1 e(1) l c show ?thesis
    by blast
qed
lemma twoPosts_wf: "wfTable twoPosts"
  by (simp add: twoPosts_def wfTable_def samplePost_def)

lemma twoPosts_fresh: "findUniqueById (newId env0) twoPosts = None"
  by (simp add: twoPosts_def findUniqueById_def samplePost_def env0_def)

lemma slugOf_given: "s \<noteq> [] \<Longrightarrow> slugOf env (d \<lparr> c_slug := Some s \<rparr>) = s"
  by (simp add: slugOf_def orElse_def)

lemma twoPosts_find:
  "findUniqueBySlug (js ''post-'' @ [3]) twoPosts = Some (samplePost PUBLISHED 3)"
  by (simp add: twoPosts_def findUniqueBySlug_def samplePost_def)

lemma slug_hello_world: "slugOf env0 (noData \<lparr> c_title := js ''Hello World'' \<rparr>) = js ''hello-world''"
  by (simp add: slugOf_def orElse_def noData_def env0_def generateSlug_def asciiLower_def
      stripOutsideClass_def inSlugClass_def isLowerAZ_def isDigit_def isSpace_def hyphen_def
      trim_def)


lemma slug_hello: "slugOf env0 helloPayload = js ''hello''" "slugOf env1 helloPayload = js ''hello''"
  by (simp_all add: slugOf_def orElse_def helloPayload_def env0_def env1_def generateSlug_def
      asciiLower_def stripOutsideClass_def inSlugClass_def isLowerAZ_def isDigit_def isSpace_def
      hyphen_def trim_def)
lemma find_append_new:
  "find P xs = None \<Longrightarrow> P y \<Longrightarrow> find P (xs @ [y]) = Some y"
  by (induction xs) (auto split: if_splits)

lemma getPostById_created:
  assumes "createPost env d tbl = (Inr p, tbl')"
  shows "getPostById (id' p) tbl' = Some p"
    and "tags p = JArray (map JString (case c_tags d of Some t \<Rightarrow> t | None \<Rightarrow> []))"
proof -
  from createPost_Inr [OF assms] obtain row where
    t: "tbl' = tbl @ [row]" and p: "p = toPostWithTags row" and i: "id' row = newId env"
    and n: "findUniqueById (newId env) tbl = None"
    and g: "tags row = stringifyTags (case c_tags d of Some t \<Rightarrow> t | None \<Rightarrow> [])"
    by blast
  from p have ip: "id' p = id' row"
    by (simp add: toPostWithTags_def)
  from n i have "find (\<lambda>r. id' r = id' row) (tbl @ [row]) = Some row"
    unfolding findUniqueById_def by (intro find_append_new) simp_all
  with t p ip show "getPostById (id' p) tbl' = Some p"
    by (simp add: getPostById_def findUniqueById_def)
  from p g show "tags p = JArray (map JString (case c_tags d of Some t \<Rightarrow> t | None \<Rightarrow> []))"
    by (simp add: toPostWithTags_def parseTags_def stringifyTags_def JSON_parse_stringify)
qed

lemma not_json: "JSON_parse (js ''[oops'') = Inl SyntaxError"
  by (simp add: JSON_parse_def isJsonSpace_def isDigit_def consTok_def)

section \<open>Claim C1: the shape of a slug\<close>

text \<open>
  Claim C1. A slug is to have only the characters \<^verbatim>\<open>[a-z0-9-]\<close>, no two hyphens in a
  row, and no hyphen at either end. The first two hold for every title
  (\<open>generateSlug_chars\<close>, \<open>generateSlug_no_double_hyphen\<close>). The last does not: the
  final \<^verbatim>\<open>.trim()\<close> of the source runs after every white-space run has become a
  hyphen, so it strips nothing, and the title \<^verbatim>\<open>" hello "\<close> gives the slug
  \<^verbatim>\<open>"-hello-"\<close>, which begins and ends with a hyphen.
\<close>

theorem generateSlug_keeps_outer_hyphens:
  "generateSlug asciiLower (js '' hello '') = js ''-hello-''
   \<and> leadingHyphen (generateSlug asciiLower (js '' hello ''))
   \<and> trailingHyphen (generateSlug asciiLower (js '' hello ''))"
  by (simp add: generateSlug_def asciiLower_def stripOutsideClass_def inSlugClass_def
      isLowerAZ_def isDigit_def isSpace_def hyphen_def trim_def leadingHyphen_def
      trailingHyphen_def)

section \<open>Claim C2: two upserts of the same payload\<close>

text \<open>
  Claim C2 does not hold of the code. The stored post \<open>storedHello\<close> has the slug
  \<^verbatim>\<open>hello\<close> and a summary. The payload \<open>helloPayload\<close> (a title, a markdown text and
  the status that the webhook adds) has the same slug and no summary. After two calls
  of \<^verbatim>\<open>upsertPostBySlug\<close> with that payload the table holds one row, and the row still
  has the summary of the stored post: \<^verbatim>\<open>summary: data.summary\<close> is \<^verbatim>\<open>undefined\<close> in the
  \<^verbatim>\<open>update\<close> object, and the store leaves the column out of the update. The fields of the
  row are not those of the latest call: the same call on an empty table stores a row
  without a summary.
\<close>

theorem upsert_keeps_omitted_summary:
  "c_summary helloPayload = None
   \<and> snd (upsertPostBySlug env1 helloPayload
            (snd (upsertPostBySlug env0 helloPayload [storedHello])))
       = [\<lparr> id' = js ''id-1'', title = js ''Hello'', slug = js ''hello'',
            summary = Some (js ''old summary''), contentMarkdown = js ''new'',
            contentHtml = Some (js ''<p>new</p>''), imageUrl = None, tags = js ''[]'',
            sourceUrl = None, author = js ''Teacher AI Academy'',
            publishedAt = 1700000060000, status = PUBLISHED, createdAt = 1600000000000,
            updatedAt = 1700000060001 \<rparr>]
   \<and> snd (upsertPostBySlug env0 helloPayload [])
       = [\<lparr> id' = js ''new-id'', title = js ''Hello'', slug = js ''hello'',
            summary = None, contentMarkdown = js ''new'',
            contentHtml = Some (js ''<p>new</p>''), imageUrl = None, tags = js ''[]'',
            sourceUrl = None, author = js ''Teacher AI Academy'',
            publishedAt = 1700000000000, status = PUBLISHED, createdAt = 1700000000001,
            updatedAt = 1700000000001 \<rparr>]"
proof -
  have t: "stringifyTags [] = js ''[]''"
    by (simp add: stringifyTags_def JSON_stringify_def)
  have c: "processContent sampleRenderer (Some (js ''new'')) None
             = \<lparr> r_contentMarkdown = Some (js ''new''), r_contentHtml = Some (js ''<p>new</p>'') \<rparr>"
    by (simp add: processContent_def Let_def truthy_def sampleRenderer_def)
  have m: "marked env0 = sampleRenderer" "marked env1 = sampleRenderer"
    by (simp_all add: env0_def env1_def)
  have p: "c_contentMarkdown helloPayload = Some (js ''new'')" "c_contentHtml helloPayload = None"
    by (simp_all add: helloPayload_def)
  have 0: "snd (upsertPostBySlug env0 helloPayload [])
       = [\<lparr> id' = js ''new-id'', title = js ''Hello'', slug = js ''hello'',
            summary = None, contentMarkdown = js ''new'',
            contentHtml = Some (js ''<p>new</p>''), imageUrl = None, tags = js ''[]'',
            sourceUrl = None, author = js ''Teacher AI Academy'',
            publishedAt = 1700000000000, status = PUBLISHED, createdAt = 1700000000001,
            updatedAt = 1700000000001 \<rparr>]"
    unfolding upsertPostBySlug_def Let_def slug_hello m p c
    by (simp add: Let_def prismaUpsert_def prismaCreate_def findUniqueBySlug_def findUniqueById_def
        createData_def withTags_def t orElse_def defaultAuthor_def helloPayload_def env0_def)
  have 1: "snd (upsertPostBySlug env0 helloPayload [storedHello])
       = [\<lparr> id' = js ''id-1'', title = js ''Hello'', slug = js ''hello'',
            summary = Some (js ''old summary''), contentMarkdown = js ''new'',
            contentHtml = Some (js ''<p>new</p>''), imageUrl = None, tags = js ''[]'',
            sourceUrl = None, author = js ''Teacher AI Academy'',
            publishedAt = 1700000000000, status = PUBLISHED, createdAt = 1600000000000,
            updatedAt = 1700000000001 \<rparr>]"
    unfolding upsertPostBySlug_def Let_def slug_hello m p c
    by (simp add: Let_def prismaUpsert_def prismaUpdate_def findUniqueBySlug_def findUniqueById_def
        applyWrite_def replaceRow_def createData_def withTags_def t orElse_def
        defaultAuthor_def helloPayload_def env0_def storedHello_def)
  have 2: "snd (upsertPostBySlug env1 helloPayload
            [\<lparr> id' = js ''id-1'', title = js ''Hello'', slug = js ''hello'',
            summary = Some (js ''old summary''), contentMarkdown = js ''new'',
            contentHtml = Some (js ''<p>new</p>''), imageUrl = None, tags = js ''[]'',
            sourceUrl = None, author = js ''Teacher AI Academy'',
            publishedAt = 1700000000000, status = PUBLISHED, createdAt = 1600000000000,
            updatedAt = 1700000000001 \<rparr>])
       = [\<lparr> id' = js ''id-1'', title = js ''Hello'', slug = js ''hello'',
            summary = Some (js ''old summary''), contentMarkdown = js ''new'',
            contentHtml = Some (js ''<p>new</p>''), imageUrl = None, tags = js ''[]'',
            sourceUrl = None, author = js ''Teacher AI Academy'',
            publishedAt = 1700000060000, status = PUBLISHED, createdAt = 1600000000000,
            updatedAt = 1700000060001 \<rparr>]"
    unfolding upsertPostBySlug_def Let_def slug_hello m p c
    by (simp add: Let_def prismaUpsert_def prismaUpdate_def findUniqueBySlug_def findUniqueById_def
        applyWrite_def replaceRow_def createData_def withTags_def t orElse_def
        defaultAuthor_def helloPayload_def env0_def env1_def)
  have s: "c_summary helloPayload = None"
    by (simp add: helloPayload_def)
  from s 0 2 show ?thesis
    unfolding 1 by (intro conjI)
qed

section \<open>Claim C3: the pages of getPosts\<close>

text \<open>
  Claim C3, as the code has it. A filter is the filter with the defaults for what it
  omits: status \<^verbatim>\<open>PUBLISHED\<close>, page 1, limit 10, order by \<^verbatim>\<open>publishedAt\<close>, descending.
  Take a page and a limit that are safe integers, and let \<open>size = min limit 50\<close> and
  \<open>offset = (page - 1) * size\<close>, with \<open>offset\<close> and \<open>offset + size\<close> safe integers too.
  The limit is capped at 50 and has no lower clamp at 1. When the offset is negative,
  \<^verbatim>\<open>getPosts\<close> fails: the store refuses the query. Otherwise it returns
  \<^verbatim>\<open>{items, page, total, hasMore}\<close> where the items are rows of the status of the filter
  in the order of the store: for \<open>size \<ge> 0\<close> the \<open>size\<close> rows from the offset on in the
  requested order, for \<open>size < 0\<close> the \<open>- size\<close> rows from the offset on in the opposite
  direction, back to front; \<open>hasMore = (offset + size < total)\<close>; and \<open>total\<close> counts all
  rows of that status, whatever the page and the limit. With 25 published posts (and any
  number of drafts), page 1 with limit 10 has total 25, 10 items and \<open>hasMore\<close>; page 3
  has 5 items and no more.
\<close>

theorem getPosts_pagination:
  "getPosts env options tbl
      = getPosts env
          \<lparr> o_status = Some (case o_status options of Some s \<Rightarrow> s | None \<Rightarrow> PUBLISHED),
            o_page = Some (case o_page options of Some p \<Rightarrow> p | None \<Rightarrow> 1),
            o_limit = Some (case o_limit options of Some l \<Rightarrow> l | None \<Rightarrow> 10),
            o_orderBy = Some (case o_orderBy options of Some f \<Rightarrow> f | None \<Rightarrow> ByPublishedAt),
            o_order = Some (case o_order options of Some d \<Rightarrow> d | None \<Rightarrow> Desc) \<rparr> tbl
   \<and> (safeInteger pg \<and> safeInteger lim \<and> safeInteger ((pg - 1) * min lim 50)
      \<and> safeInteger ((pg - 1) * min lim 50 + min lim 50) \<longrightarrow>
      getPosts env \<lparr> o_status = Some st, o_page = Some pg, o_limit = Some lim,
                      o_orderBy = Some f, o_order = Some d \<rparr> tbl
      = (if (pg - 1) * min lim 50 < 0 then Inl QueryValidationError
        else Inr \<lparr> items = map toPostWithTags
                      (if 0 \<le> min lim 50
                       then pageWindow ((pg - 1) * min lim 50) (min lim 50)
                              (orderRows env f d (filter (\<lambda>p. status p = st) tbl))
                       else rev (pageWindow ((pg - 1) * min lim 50) (- min lim 50)
                              (orderRows env f (reverseDir d)
                                 (filter (\<lambda>p. status p = st) tbl)))),
                   page = pg,
                   total' = int (length (filter (\<lambda>p. status p = st) tbl)),
                   hasMore = ((pg - 1) * min lim 50 + min lim 50
                                < int (length (filter (\<lambda>p. status p = st) tbl))) \<rparr>))
   \<and> (length (filter (\<lambda>p. status p = PUBLISHED) tbl) = 25 \<longrightarrow>
       (case getPosts env \<lparr> o_status = Some PUBLISHED, o_page = Some 1, o_limit = Some 10,
                            o_orderBy = ob, o_order = od \<rparr> tbl of
          Inr r \<Rightarrow> total' r = 25 \<and> length (items r) = 10 \<and> hasMore r
        | Inl e \<Rightarrow> False)
     \<and> (case getPosts env \<lparr> o_status = Some PUBLISHED, o_page = Some 3, o_limit = Some 10,
                            o_orderBy = ob, o_order = od \<rparr> tbl of
          Inr r \<Rightarrow> total' r = 25 \<and> length (items r) = 5 \<and> \<not> hasMore r
        | Inl e \<Rightarrow> False))"
proof (intro conjI impI)
  show "getPosts env options tbl
      = getPosts env
          \<lparr> o_status = Some (case o_status options of Some s \<Rightarrow> s | None \<Rightarrow> PUBLISHED),
            o_page = Some (case o_page options of Some p \<Rightarrow> p | None \<Rightarrow> 1),
            o_limit = Some (case o_limit options of Some l \<Rightarrow> l | None \<Rightarrow> 10),
            o_orderBy = Some (case o_orderBy options of Some f \<Rightarrow> f | None \<Rightarrow> ByPublishedAt),
            o_order = Some (case o_order options of Some d \<Rightarrow> d | None \<Rightarrow> Desc) \<rparr> tbl"
    by (rule getPosts_defaults)
next
  let ?o = "\<lparr> o_status = Some st, o_page = Some pg, o_limit = Some lim,
              o_orderBy = Some f, o_order = Some d \<rparr>"
  assume h: "safeInteger pg \<and> safeInteger lim \<and> safeInteger ((pg - 1) * min lim 50)
      \<and> safeInteger ((pg - 1) * min lim 50 + min lim 50)"
  have e: "skipOf ?o = (pg - 1) * min lim 50" "maxLimitOf ?o = min lim 50" "pageOf ?o = pg"
    "statusOf ?o = st" "orderByOf ?o = f" "orderOf ?o = d"
    by (simp_all add: optionsOf_defs)
  from h have i: "int64 (skipOf ?o)"
    unfolding e by (simp add: safeInteger_int64)
  from h have m: "int64 (maxLimitOf ?o)"
    unfolding e by (auto simp: safeInteger_def int64_def min_def)
  from getPosts_cases [OF i m, of env tbl]
  show "getPosts env \<lparr> o_status = Some st, o_page = Some pg, o_limit = Some lim,
                      o_orderBy = Some f, o_order = Some d \<rparr> tbl
      = (if (pg - 1) * min lim 50 < 0 then Inl QueryValidationError
        else Inr \<lparr> items = map toPostWithTags
                      (if 0 \<le> min lim 50
                       then pageWindow ((pg - 1) * min lim 50) (min lim 50)
                              (orderRows env f d (filter (\<lambda>p. status p = st) tbl))
                       else rev (pageWindow ((pg - 1) * min lim 50) (- min lim 50)
                              (orderRows env f (reverseDir d)
                                 (filter (\<lambda>p. status p = st) tbl)))),
                   page = pg,
                   total' = int (length (filter (\<lambda>p. status p = st) tbl)),
                   hasMore = ((pg - 1) * min lim 50 + min lim 50
                                < int (length (filter (\<lambda>p. status p = st) tbl))) \<rparr>)"
    unfolding e .
next
  assume n: "length (filter (\<lambda>p. status p = PUBLISHED) tbl) = 25"
  show "case getPosts env \<lparr> o_status = Some PUBLISHED, o_page = Some 1, o_limit = Some 10,
                            o_orderBy = ob, o_order = od \<rparr> tbl of
          Inr r \<Rightarrow> total' r = 25 \<and> length (items r) = 10 \<and> hasMore r
        | Inl e \<Rightarrow> False"
    by (subst getPosts_explicit)
       (simp_all add: optionsOf_defs safeInteger_def pageWindow_length orderRows_length n)
next
  assume n: "length (filter (\<lambda>p. status p = PUBLISHED) tbl) = 25"
  show "case getPosts env \<lparr> o_status = Some PUBLISHED, o_page = Some 3, o_limit = Some 10,
                            o_orderBy = ob, o_order = od \<rparr> tbl of
          Inr r \<Rightarrow> total' r = 25 \<and> length (items r) = 5 \<and> \<not> hasMore r
        | Inl e \<Rightarrow> False"
    by (subst getPosts_explicit)
       (simp_all add: optionsOf_defs safeInteger_def pageWindow_length orderRows_length n)
qed

theorem getPosts_pagination_witness:
  "safeInteger 2 \<and> safeInteger 10 \<and> safeInteger ((2 - 1) * min 10 50)
   \<and> safeInteger ((2 - 1) * min 10 50 + min 10 50)
   \<and> length (filter (\<lambda>p. status p = PUBLISHED) (sampleTable 25 5)) = 25
   \<and> length (filter (\<lambda>p. status p = DRAFT) (sampleTable 25 5)) = 5
   \<and> (case getPosts env0 (pageOptions 2 10) (sampleTable 25 5) of
      Inr r \<Rightarrow> page r = 2 \<and> total' r = 25 \<and> length (items r) = 10 \<and> hasMore r
    | Inl e \<Rightarrow> False)
   \<and> (case getPosts env0 (pageOptions 1 10) (sampleTable 25 5) of
      Inr r \<Rightarrow> total' r = 25 \<and> length (items r) = 10 \<and> hasMore r
    | Inl e \<Rightarrow> False)
   \<and> (case getPosts env0 (pageOptions 3 10) (sampleTable 25 5) of
      Inr r \<Rightarrow> total' r = 25 \<and> length (items r) = 5 \<and> \<not> hasMore r
    | Inl e \<Rightarrow> False)
   \<and> (case getPosts env0 noOptions (sampleTable 25 5) of
      Inr r \<Rightarrow> page r = 1 \<and> total' r = 25 \<and> length (items r) = 10 \<and> hasMore r
    | Inl e \<Rightarrow> False)
   \<and> safeInteger 1 \<and> safeInteger (- 2) \<and> safeInteger ((1 - 1) * min (- 2) 50)
   \<and> safeInteger ((1 - 1) * min (- 2) 50 + min (- 2) 50)
   \<and> (case getPosts env0 (pageOptions 1 (- 2)) (sampleTable 25 5) of
      Inr r \<Rightarrow> page r = 1 \<and> total' r = 25 \<and> length (items r) = 2 \<and> hasMore r
    | Inl e \<Rightarrow> False)
   \<and> safeInteger ((2 - 1) * min (- 2) 50)
   \<and> safeInteger ((2 - 1) * min (- 2) 50 + min (- 2) 50)
   \<and> getPosts env0 (pageOptions 2 (- 2)) (sampleTable 25 5) = Inl QueryValidationError
   \<and> (case getPosts env0 (pageOptions 1 2) fourPosts of
      Inr r \<Rightarrow> map publishedAt (items r) = [5, 3] \<and> total' r = 3 \<and> hasMore r
    | Inl e \<Rightarrow> False)
   \<and> (case getPosts env0 (pageOptions 1 (- 2)) fourPosts of
      Inr r \<Rightarrow> map publishedAt (items r) = [3, 2] \<and> total' r = 3 \<and> hasMore r
    | Inl e \<Rightarrow> False)"
proof -
  have s: "safeInteger 1" "safeInteger 2" "safeInteger 10" "safeInteger (- 2)" "safeInteger 0"
    "safeInteger 20" "safeInteger 3" "safeInteger 4" "safeInteger (- 4)"
    by (simp_all add: safeInteger_def)
  have f: "filter (\<lambda>p. status p = PUBLISHED) fourPosts
             = [samplePost PUBLISHED 2, samplePost PUBLISHED 3, samplePost PUBLISHED 5]"
    by (simp add: fourPosts_def status_samplePost)
  have d: "orderRows env0 ByPublishedAt Desc
             [samplePost PUBLISHED 2, samplePost PUBLISHED 3, samplePost PUBLISHED 5]
             = [samplePost PUBLISHED 5, samplePost PUBLISHED 3, samplePost PUBLISHED 2]"
    and u: "orderRows env0 ByPublishedAt Asc
             [samplePost PUBLISHED 2, samplePost PUBLISHED 3, samplePost PUBLISHED 5]
             = [samplePost PUBLISHED 2, samplePost PUBLISHED 3, samplePost PUBLISHED 5]"
    by (simp_all add: orderRows_def env0_def sampleOrder_def sampleKeyLe_def samplePost_def)
  have p: "publishedAt (toPostWithTags (samplePost PUBLISHED n)) = int n" for n
    by (simp add: toPostWithTags_def samplePost_def)
  note t = getPosts_pagination [where env = env0 and st = PUBLISHED and f = ByPublishedAt
      and d = Desc and ob = "Some ByPublishedAt" and od = "Some Desc"]
  have 1: "case getPosts env0 (pageOptions 1 2) fourPosts of
      Inr r \<Rightarrow> map publishedAt (items r) = [5, 3] \<and> total' r = 3 \<and> hasMore r
    | Inl e \<Rightarrow> False"
    using t [where options = noOptions and tbl = fourPosts and pg = 1 and lim = 2]
    unfolding pageOptions_def
    by (simp add: s f d p pageWindow_def)
  have 2: "case getPosts env0 (pageOptions 1 (- 2)) fourPosts of
      Inr r \<Rightarrow> map publishedAt (items r) = [3, 2] \<and> total' r = 3 \<and> hasMore r
    | Inl e \<Rightarrow> False"
    using t [where options = noOptions and tbl = fourPosts and pg = 1 and lim = "- 2"]
    unfolding pageOptions_def
    by (simp add: s reverseDir_def f u p pageWindow_def)
  have 3: "case getPosts env0 noOptions (sampleTable 25 5) of
      Inr r \<Rightarrow> page r = 1 \<and> total' r = 25 \<and> length (items r) = 10 \<and> hasMore r
    | Inl e \<Rightarrow> False"
    using t [where options = noOptions and tbl = "sampleTable 25 5" and pg = 1 and lim = 10]
    by (simp add: noOptions_def s sampleTable_published_count pageWindow_length
        orderRows_length)
  from 1 2 3
    t [where options = noOptions and tbl = "sampleTable 25 5" and pg = 2 and lim = 10]
    t [where options = noOptions and tbl = "sampleTable 25 5" and pg = 1 and lim = "- 2"]
    t [where options = noOptions and tbl = "sampleTable 25 5" and pg = 2 and lim = "- 2"]
  show ?thesis
    unfolding pageOptions_def
    by (simp add: s sampleTable_published_count sampleTable_draft_count pageWindow_length
        orderRows_length)
qed

text \<open>
  The claim as the specification has it fails. Its formula,
  \<open>offset = (page - 1) * clamp(limit,1,50)\<close> with \<open>hasMore = (offset + limit < total)\<close>,
  fails at \<open>limit = 0\<close>: on one published post, page 2 has \<open>hasMore\<close> by the code
  (offset 0) and not by the formula (offset 1), whether its \<open>limit\<close> is the given or the
  clamped one. A negative limit is not clamped either: \<^verbatim>\<open>GET /posts?page=2&limit=-3\<close>
  asks the store to skip \<open>-3\<close> rows and is answered with status 500. And a page or a
  limit so large that the offset or the size leaves the integers of the store gets no
  page but an error.
\<close>

theorem getPosts_lower_clamp_counterexample:
  "getPosts env0 \<lparr> o_status = Some PUBLISHED, o_page = Some 2, o_limit = Some 0,
                   o_orderBy = None, o_order = None \<rparr> [samplePost PUBLISHED 1]
     = Inr \<lparr> items = [], page = 2, total' = 1, hasMore = True \<rparr>
   \<and> \<not> ((2 - 1) * specClamp 0 1 50 + 0 < (1::int))
   \<and> \<not> ((2 - 1) * specClamp 0 1 50 + specClamp 0 1 50 < (1::int))
   \<and> getPosts env0 \<lparr> o_status = Some PUBLISHED, o_page = Some 2, o_limit = Some (- 3),
                   o_orderBy = None, o_order = None \<rparr> [samplePost PUBLISHED 1]
       = Inl QueryValidationError
   \<and> statusCode (publicPostsRoute env0 (Some 2) (Some (- 3)) None None [samplePost PUBLISHED 1])
       = 500
   \<and> getPosts env0 \<lparr> o_status = Some PUBLISHED, o_page = Some 1000000000000000000,
                   o_limit = Some 10, o_orderBy = None, o_order = None \<rparr>
       [samplePost PUBLISHED 1]
       = Inl QueryValidationError
   \<and> getPosts env0 \<lparr> o_status = Some PUBLISHED, o_page = Some 1,
                   o_limit = Some (- 10000000000000000000), o_orderBy = None, o_order = None \<rparr>
       [samplePost PUBLISHED 1]
       = Inl QueryValidationError"
proof -
  have a: "getPosts env0 \<lparr> o_status = Some PUBLISHED, o_page = Some 2, o_limit = Some 0,
                   o_orderBy = None, o_order = None \<rparr> [samplePost PUBLISHED 1]
     = Inr \<lparr> items = [], page = 2, total' = 1, hasMore = True \<rparr>"
    by (simp add: getPosts_explicit optionsOf_defs safeInteger_def pageWindow_def
        status_samplePost)
  have b: "getPosts env0 \<lparr> o_status = Some PUBLISHED, o_page = Some 2, o_limit = Some (- 3),
                   o_orderBy = None, o_order = None \<rparr> [samplePost PUBLISHED 1]
       = Inl QueryValidationError"
    by (simp add: getPosts_refused optionsOf_defs)
  have c: "statusCode (publicPostsRoute env0 (Some 2) (Some (- 3)) None None
             [samplePost PUBLISHED 1]) = 500"
    by (simp add: publicPostsRoute_def Let_def parseIntOr_def getPosts_refused optionsOf_defs
        statusCode_def)
  have d: "getPosts env0 \<lparr> o_status = Some PUBLISHED, o_page = Some 1000000000000000000,
                   o_limit = Some 10, o_orderBy = None, o_order = None \<rparr>
       [samplePost PUBLISHED 1]
       = Inl QueryValidationError"
    by (simp add: getPosts_def Let_def findMany_out_of_range int64_def optionsOf_defs)
  have e: "getPosts env0 \<lparr> o_status = Some PUBLISHED, o_page = Some 1,
                   o_limit = Some (- 10000000000000000000), o_orderBy = None, o_order = None \<rparr>
       [samplePost PUBLISHED 1]
       = Inl QueryValidationError"
    by (simp add: getPosts_def Let_def findMany_out_of_range int64_def optionsOf_defs)
  from a b c d e show ?thesis
    by (simp add: specClamp_def)
qed

section \<open>Claim C4: the cap on the limit\<close>




section \<open>Claim C5: public queries return published posts only\<close>

text \<open>
  Claim C5. For every table, every post that a public query returns (the public
  listing \<^verbatim>\<open>GET /posts\<close>, the public \<^verbatim>\<open>GET /posts/:slug\<close> and the RSS feed) has the
  status \<^verbatim>\<open>PUBLISHED\<close>: a draft appears in none of them.
\<close>

theorem public_queries_published_only:
  "(\<forall>r. publicPostsRoute env qPage qLimit qOrderBy qOrder tbl = Ok r \<longrightarrow>
         (\<forall>p \<in> set (items r). status p = PUBLISHED))
   \<and> (\<forall>p. publicPostBySlugRoute s tbl = Ok p \<longrightarrow> status p = PUBLISHED)
   \<and> (\<forall>ps. rssRoute env q tbl = Ok ps \<longrightarrow> (\<forall>p \<in> set ps. status p = PUBLISHED))"
proof (intro conjI allI impI)
  fix r
  assume "publicPostsRoute env qPage qLimit qOrderBy qOrder tbl = Ok r"
  then obtain options where g: "getPosts env options tbl = Inr r" and o: "statusOf options = PUBLISHED"
    unfolding publicPostsRoute_def Let_def
    by (auto simp: statusOf_def split: sum.splits)
  from getPosts_items_status [OF g] o show "\<forall>p \<in> set (items r). status p = PUBLISHED"
    by simp
next
  fix p
  assume "publicPostBySlugRoute s tbl = Ok p"
  then show "status p = PUBLISHED"
    by (auto simp: publicPostBySlugRoute_def split: option.splits if_splits)
next
  fix ps
  assume "rssRoute env q tbl = Ok ps"
  then have "getPublishedPostsForRSS env (Some (min (parseIntOr q 50) 100)) tbl = Inr ps"
    unfolding rssRoute_def Let_def
    by (auto split: sum.splits)
  then show "\<forall>p \<in> set ps. status p = PUBLISHED"
    by (rule rss_items_status)
qed

theorem public_queries_published_only_witness:
  "(case publicPostsRoute env0 None None None None [samplePost PUBLISHED 3, samplePost DRAFT 4] of
      Ok r \<Rightarrow> map id' (items r) = [js ''id-'' @ [3]] \<and> list_all (\<lambda>p. status p = PUBLISHED) (items r)
    | _ \<Rightarrow> False)
   \<and> publicPostBySlugRoute (js ''post-'' @ [4]) [samplePost PUBLISHED 3, samplePost DRAFT 4]
       = NotFound
   \<and> (case publicPostBySlugRoute (js ''post-'' @ [3]) [samplePost PUBLISHED 3, samplePost DRAFT 4] of
        Ok p \<Rightarrow> id' p = js ''id-'' @ [3] \<and> status p = PUBLISHED
      | _ \<Rightarrow> False)
   \<and> (case rssRoute env0 None [samplePost PUBLISHED 3, samplePost DRAFT 4] of
        Ok ps \<Rightarrow> map id' ps = [js ''id-'' @ [3]] \<and> list_all (\<lambda>p. status p = PUBLISHED) ps
      | _ \<Rightarrow> False)"
proof -
  let ?tbl = "[samplePost PUBLISHED 3, samplePost DRAFT 4]"
  have a: "publicPostsRoute env0 None None None None ?tbl
             = Ok \<lparr> items = [toPostWithTags (samplePost PUBLISHED 3)], page = 1, total' = 1,
                    hasMore = False \<rparr>"
    unfolding publicPostsRoute_def Let_def
    by (simp add: parseIntOr_def getPosts_explicit optionsOf_defs safeInteger_def
        status_samplePost pageWindow_def orderRows_def)
  have b: "rssRoute env0 None ?tbl = Ok [toPostWithTags (samplePost PUBLISHED 3)]"
    unfolding rssRoute_def Let_def
    by (simp add: parseIntOr_def rss_explicit int64_def status_samplePost orderRows_def)
  have c: "publicPostBySlugRoute (js ''post-'' @ [3]) ?tbl = Ok (toPostWithTags (samplePost PUBLISHED 3))"
    unfolding publicPostBySlugRoute_def getPostBySlug_def find_samples
    by (simp add: toPostWithTags_status status_samplePost)
  have d: "publicPostBySlugRoute (js ''post-'' @ [4]) ?tbl = NotFound"
    unfolding publicPostBySlugRoute_def getPostBySlug_def find_samples
    by (simp add: toPostWithTags_status status_samplePost)
  have i: "id' (toPostWithTags (samplePost PUBLISHED 3)) = js ''id-'' @ [3]"
    by (simp add: toPostWithTags_def samplePost_def)
  show ?thesis
    using public_queries_published_only [where env = env0 and qPage = None and qLimit = None
        and qOrderBy = None and qOrder = None and tbl = ?tbl and s = "js ''post-'' @ [3]"
        and q = None]
    unfolding a b c d
    by (simp add: i list_all_iff)
qed

section \<open>Claim C6: the round trip of the tags\<close>

text \<open>
  Claim C6. For every sequence of strings, \<^verbatim>\<open>parseTags\<close> of its \<^verbatim>\<open>stringifyTags\<close> is
  the same sequence, in order and content; a stored text that \<^verbatim>\<open>JSON.parse\<close> rejects
  is decoded to the empty sequence, without a failure; and the post that
  \<^verbatim>\<open>getPostById\<close> finds after a \<^verbatim>\<open>createPost\<close> is the post the creation returned,
  with exactly the tags of the input (none when the input has none).
\<close>

theorem tags_round_trip:
  "parseTags (stringifyTags ts) = JArray (map JString ts)
   \<and> (JSON_parse stored = Inl SyntaxError \<longrightarrow> parseTags stored = JArray [])
   \<and> (createPost env d tbl = (Inr p, tbl') \<longrightarrow>
        getPostById (id' p) tbl' = Some p
        \<and> tags p = JArray (map JString (case c_tags d of Some t \<Rightarrow> t | None \<Rightarrow> [])))"
proof (intro conjI impI)
  show "parseTags (stringifyTags ts) = JArray (map JString ts)"
    by (simp add: parseTags_def stringifyTags_def JSON_parse_stringify)
next
  assume "JSON_parse stored = Inl SyntaxError"
  then show "parseTags stored = JArray []"
    by (simp add: parseTags_def)
next
  assume "createPost env d tbl = (Inr p, tbl')"
  then show "getPostById (id' p) tbl' = Some p"
    by (rule getPostById_created(1))
next
  assume "createPost env d tbl = (Inr p, tbl')"
  then show "tags p = JArray (map JString (case c_tags d of Some t \<Rightarrow> t | None \<Rightarrow> []))"
    by (rule getPostById_created(2))
qed

theorem tags_round_trip_witness:
  "JSON_parse (js ''[oops'') = Inl SyntaxError
   \<and> parseTags (js ''[oops'') = JArray []
   \<and> parseTags (stringifyTags [js ''ai'', [0x22, 0x5C, 0x0A, 0xD800]])
       = JArray [JString (js ''ai''), JString [0x22, 0x5C, 0x0A, 0xD800]]
   \<and> (case createPost env0 (noData \<lparr> c_title := js ''T'', c_tags := Some [js ''ai'', js ''k-12''] \<rparr>) [] of
         (Inr p, tbl') \<Rightarrow>
           getPostById (id' p) tbl' = Some p
           \<and> tags p = JArray [JString (js ''ai''), JString (js ''k-12'')]
       | (Inl e, tbl') \<Rightarrow> False)"
proof -
  let ?d = "noData \<lparr> c_title := js ''T'', c_tags := Some [js ''ai'', js ''k-12''] \<rparr>"
  obtain p tbl' where c: "createPost env0 ?d [] = (Inr p, tbl')"
    by (simp add: createPost_empty_table Let_def)
  have t: "c_tags ?d = Some [js ''ai'', js ''k-12'']"
    by simp
  from tags_round_trip [of "[js ''ai'', [0x22, 0x5C, 0x0A, 0xD800]]" "js ''[oops''" env0 ?d "[]" p tbl']
    not_json c
  show ?thesis
    unfolding c t by simp
qed

section \<open>Claim C7: the stored contentHtml\<close>

text \<open>
  Claim C7, as the code has it. For every create input that the store accepts: when a
  non-empty \<^verbatim>\<open>contentMarkdown\<close> is supplied and \<^verbatim>\<open>contentHtml\<close> is absent or empty, the
  stored \<^verbatim>\<open>contentHtml\<close> is what the renderer returns for that markdown; when a non-empty
  \<^verbatim>\<open>contentHtml\<close> is supplied, the stored one is the supplied one verbatim; when neither
  is non-empty, no \<^verbatim>\<open>contentHtml\<close> is stored. An empty string counts as not supplied.
\<close>

theorem createPost_contentHtml:
  "createPost env d tbl = (Inr p, tbl') \<longrightarrow>
     (\<exists>row. tbl' = tbl @ [row] \<and> p = toPostWithTags row
        \<and> (\<forall>md. c_contentMarkdown d = Some md \<and> md \<noteq> [] \<and> \<not> truthy (c_contentHtml d)
                 \<longrightarrow> contentHtml row = Some (marked env md))
        \<and> (truthy (c_contentHtml d) \<longrightarrow> contentHtml row = c_contentHtml d)
        \<and> (\<not> truthy (c_contentMarkdown d) \<and> \<not> truthy (c_contentHtml d)
              \<longrightarrow> contentHtml row = None))"
proof
  assume "createPost env d tbl = (Inr p, tbl')"
  from createPost_Inr [OF this] obtain row where
    t: "tbl' = tbl @ [row]" and p: "p = toPostWithTags row" and
    h: "contentHtml row
          = r_contentHtml (processContent (marked env) (c_contentMarkdown d) (c_contentHtml d))"
    by blast
  have a: "\<forall>md. c_contentMarkdown d = Some md \<and> md \<noteq> [] \<and> \<not> truthy (c_contentHtml d)
                 \<longrightarrow> contentHtml row = Some (marked env md)"
    by (simp add: h processContent_rendered)
  have b: "truthy (c_contentHtml d) \<longrightarrow> contentHtml row = c_contentHtml d"
    by (simp add: h processContent_given_html)
  have c: "\<not> truthy (c_contentMarkdown d) \<and> \<not> truthy (c_contentHtml d)
              \<longrightarrow> contentHtml row = None"
    by (simp add: h processContent_nothing)
  from t p a b c
  show "\<exists>row. tbl' = tbl @ [row] \<and> p = toPostWithTags row
        \<and> (\<forall>md. c_contentMarkdown d = Some md \<and> md \<noteq> [] \<and> \<not> truthy (c_contentHtml d)
                 \<longrightarrow> contentHtml row = Some (marked env md))
        \<and> (truthy (c_contentHtml d) \<longrightarrow> contentHtml row = c_contentHtml d)
        \<and> (\<not> truthy (c_contentMarkdown d) \<and> \<not> truthy (c_contentHtml d)
              \<longrightarrow> contentHtml row = None)"
    by blast
qed

theorem createPost_contentHtml_witness:
  "(case createPost env0
       (noData \<lparr> c_title := js ''Hi'', c_contentMarkdown := Some (js ''# Hi'') \<rparr>) [] of
      (Inr p, tbl') \<Rightarrow> map contentHtml tbl' = [Some (js ''<p># Hi</p>'')]
    | (Inl e, tbl') \<Rightarrow> False)
   \<and> (case createPost env0
       (noData \<lparr> c_title := js ''Hi'', c_contentMarkdown := Some (js ''# Hi''),
                 c_contentHtml := Some (js ''<h1>Hello</h1>'') \<rparr>) [] of
      (Inr p, tbl') \<Rightarrow> map contentHtml tbl' = [Some (js ''<h1>Hello</h1>'')]
    | (Inl e, tbl') \<Rightarrow> False)
   \<and> (case createPost env0 (noData \<lparr> c_title := js ''Hi'' \<rparr>) [] of
      (Inr p, tbl') \<Rightarrow> map contentHtml tbl' = [None]
    | (Inl e, tbl') \<Rightarrow> False)"
proof -
  let ?d1 = "noData \<lparr> c_title := js ''Hi'', c_contentMarkdown := Some (js ''# Hi'') \<rparr>"
  let ?d2 = "noData \<lparr> c_title := js ''Hi'', c_contentMarkdown := Some (js ''# Hi''),
                 c_contentHtml := Some (js ''<h1>Hello</h1>'') \<rparr>"
  let ?d3 = "noData \<lparr> c_title := js ''Hi'' \<rparr>"
  have m: "marked env0 (js ''# Hi'') = js ''<p># Hi</p>''"
    by (simp add: env0_def sampleRenderer_def)
  have 1: "c_contentMarkdown ?d1 = Some (js ''# Hi'')" "\<not> truthy (c_contentHtml ?d1)"
    and 2: "truthy (c_contentHtml ?d2)" "c_contentHtml ?d2 = Some (js ''<h1>Hello</h1>'')"
    and 3: "\<not> truthy (c_contentMarkdown ?d3)" "\<not> truthy (c_contentHtml ?d3)"
    by (simp_all add: noData_def truthy_def)
  obtain p1 t1 where e1: "createPost env0 ?d1 [] = (Inr p1, t1)"
    by (simp add: createPost_empty_table Let_def)
  obtain p2 t2 where e2: "createPost env0 ?d2 [] = (Inr p2, t2)"
    by (simp add: createPost_empty_table Let_def)
  obtain p3 t3 where e3: "createPost env0 ?d3 [] = (Inr p3, t3)"
    by (simp add: createPost_empty_table Let_def)
  from createPost_contentHtml [of env0 ?d1 "[]" p1 t1] e1 1 m
  have r1: "map contentHtml t1 = [Some (js ''<p># Hi</p>'')]"
    by auto
  from createPost_contentHtml [of env0 ?d2 "[]" p2 t2] e2 2
  have r2: "map contentHtml t2 = [Some (js ''<h1>Hello</h1>'')]"
    by auto
  from createPost_contentHtml [of env0 ?d3 "[]" p3 t3] e3 3
  have r3: "map contentHtml t3 = [None]"
    by auto
  from r1 r2 r3 show ?thesis
    unfolding e1 e2 e3 by simp
qed

text \<open>
  The claim as the specification states it fails on an empty markdown: only
  \<^verbatim>\<open>contentMarkdown\<close> is supplied, and the stored post has no \<^verbatim>\<open>contentHtml\<close> at all.
\<close>

theorem createPost_empty_markdown_counterexample:
  "c_contentMarkdown (noData \<lparr> c_title := js ''Hi'', c_contentMarkdown := Some [] \<rparr>) = Some []
   \<and> c_contentHtml (noData \<lparr> c_title := js ''Hi'', c_contentMarkdown := Some [] \<rparr>) = None
   \<and> map contentHtml (snd (createPost env0
         (noData \<lparr> c_title := js ''Hi'', c_contentMarkdown := Some [] \<rparr>) [])) = [None]"
  by (simp add: createPost_empty_table Let_def noData_def processContent_def truthy_def)

section \<open>Claim C8: update and delete of an unknown identifier\<close>

text \<open>
  Claim C8. For every identifier that no row of the table has, \<^verbatim>\<open>updatePost\<close> fails with
  the store's error \<^verbatim>\<open>Record to update not found\<close> and \<^verbatim>\<open>deletePost\<close> with
  \<^verbatim>\<open>Record to delete does not exist\<close> (the not-found errors, which the admin routes
  answer with status 404), and both leave the table as it was.
\<close>

theorem update_delete_unknown_id:
  assumes "i \<notin> set (map id' tbl)"
  shows "updatePost env i d tbl = (Inl RecordToUpdateNotFound, tbl)
       \<and> deletePost i tbl = (Inl RecordToDeleteDoesNotExist, tbl)
       \<and> adminUpdateRoute env i d tbl = (NotFound, tbl)
       \<and> adminDeleteRoute i tbl = (NotFound, tbl)"
proof -
  from assms have n: "findUniqueById i tbl = None"
    by (simp add: findUniqueById_None)
  have u: "updatePost env i d tbl = (Inl RecordToUpdateNotFound, tbl)"
    by (simp add: updatePost_def Let_def prismaUpdate_missing [OF n] withTags_def)
  have e: "deletePost i tbl = (Inl RecordToDeleteDoesNotExist, tbl)"
    by (simp add: deletePost_def prismaDelete_missing [OF n])
  from u e show ?thesis
    by (simp add: adminUpdateRoute_def adminDeleteRoute_def)
qed

theorem update_delete_unknown_id_witness:
  "js ''id-7'' \<notin> set (map id' [samplePost PUBLISHED 3, samplePost DRAFT 4])
   \<and> updatePost env0 (js ''id-7'') noUpdate [samplePost PUBLISHED 3, samplePost DRAFT 4]
       = (Inl RecordToUpdateNotFound, [samplePost PUBLISHED 3, samplePost DRAFT 4])
   \<and> deletePost (js ''id-7'') [samplePost PUBLISHED 3, samplePost DRAFT 4]
       = (Inl RecordToDeleteDoesNotExist, [samplePost PUBLISHED 3, samplePost DRAFT 4])
   \<and> statusCode (fst (adminUpdateRoute env0 (js ''id-7'') noUpdate
        [samplePost PUBLISHED 3, samplePost DRAFT 4])) = 404
   \<and> statusCode (fst (adminDeleteRoute (js ''id-7'')
        [samplePost PUBLISHED 3, samplePost DRAFT 4])) = 404"
proof -
  have h: "js ''id-7'' \<notin> set (map id' [samplePost PUBLISHED 3, samplePost DRAFT 4])"
    by (simp add: samplePost_def)
  show ?thesis
    using h update_delete_unknown_id [OF h, of env0 noUpdate]
    by (simp add: statusCode_def)
qed

section \<open>Claim C9: getPosts without a status\<close>

text \<open>
  Claim C9. When the filter has no status, \<^verbatim>\<open>getPosts\<close> filters by \<^verbatim>\<open>PUBLISHED\<close> (the
  default of the parameter): the call is the call with \<^verbatim>\<open>status: PUBLISHED\<close>, every item
  is published, and \<open>total\<close> counts the published rows only.
\<close>

theorem getPosts_status_omitted:
  "o_status options = None \<longrightarrow>
     getPosts env options tbl = getPosts env (options \<lparr> o_status := Some PUBLISHED \<rparr>) tbl
     \<and> (\<forall>r. getPosts env options tbl = Inr r \<longrightarrow>
           (\<forall>p \<in> set (items r). status p = PUBLISHED)
           \<and> total' r = int (length (filter (\<lambda>p. status p = PUBLISHED) tbl)))"
proof (intro impI conjI allI)
  assume o: "o_status options = None"
  then show "getPosts env options tbl = getPosts env (options \<lparr> o_status := Some PUBLISHED \<rparr>) tbl"
    by (simp add: getPosts_def optionsOf_defs)
next
  fix r
  assume o: "o_status options = None" and g: "getPosts env options tbl = Inr r"
  from getPosts_items_status [OF g] o show "\<forall>p \<in> set (items r). status p = PUBLISHED"
    by (simp add: statusOf_def)
next
  fix r
  assume o: "o_status options = None" and g: "getPosts env options tbl = Inr r"
  from getPosts_total [OF g] o
  show "total' r = int (length (filter (\<lambda>p. status p = PUBLISHED) tbl))"
    by (simp add: statusOf_def)
qed

theorem getPosts_status_omitted_witness:
  "o_status noOptions = None
   \<and> getPosts env0 noOptions [samplePost PUBLISHED 3, samplePost DRAFT 4]
       = Inr \<lparr> items = [toPostWithTags (samplePost PUBLISHED 3)], page = 1, total' = 1,
               hasMore = False \<rparr>
   \<and> list_all (\<lambda>p. status p = PUBLISHED) [toPostWithTags (samplePost PUBLISHED 3)]"
proof -
  let ?tbl = "[samplePost PUBLISHED 3, samplePost DRAFT 4]"
  have n: "o_status noOptions = None"
    by (simp add: noOptions_def)
  have e: "getPosts env0 (noOptions \<lparr> o_status := Some PUBLISHED \<rparr>) ?tbl
             = Inr \<lparr> items = [toPostWithTags (samplePost PUBLISHED 3)], page = 1, total' = 1,
                     hasMore = False \<rparr>"
    by (simp add: getPosts_def Let_def optionsOf_defs noOptions_def findMany_def int64_def
        countRows_def matchesWhere_def status_samplePost orderRows_def)
  from getPosts_status_omitted [where options = noOptions and env = env0 and tbl = ?tbl] n e show ?thesis
    by (simp add: toPostWithTags_status status_samplePost)
qed

section \<open>Claim C10: an upsert keeps the identifier and the slug\<close>

text \<open>
  Claim C10. On a table that satisfies its uniqueness constraints, when the slug that
  \<^verbatim>\<open>upsertPostBySlug\<close> computes is the slug of a stored post, the call succeeds and
  leaves the identifier, the slug and \<^verbatim>\<open>createdAt\<close> of that post, and of every other
  post, as they were: only the other fields of that post are overwritten, with the
  values of the call, and the other posts stay as they are.
\<close>

theorem upsert_keeps_id_and_slug:
  "wfTable tbl \<and> findUniqueBySlug (slugOf env d) tbl = Some row \<longrightarrow>
     (case upsertPostBySlug env d tbl of
        (Inr p, tbl') \<Rightarrow>
          id' p = id' row \<and> slug p = slug row \<and> createdAt p = createdAt row
          \<and> map id' tbl' = map id' tbl \<and> map slug tbl' = map slug tbl
          \<and> map createdAt tbl' = map createdAt tbl
          \<and> (case findUniqueById (id' row) tbl' of
                Some row' \<Rightarrow> p = toPostWithTags row' \<and> fieldsOfCall env d row'
              | None \<Rightarrow> False)
          \<and> (\<forall>r \<in> set tbl. id' r \<noteq> id' row \<longrightarrow> r \<in> set tbl')
      | (Inl e, tbl') \<Rightarrow> False)"
proof
  assume a: "wfTable tbl \<and> findUniqueBySlug (slugOf env d) tbl = Some row"
  then have wf: "wfTable tbl" and f: "findUniqueBySlug (slugOf env d) tbl = Some row"
    by simp_all
  define row' where "row' = applyWrite env
      ((createData env d (slugOf env d)
          (processContent (marked env) (c_contentMarkdown d) (c_contentHtml d)))
        \<lparr> w_slug := None \<rparr>) row"
  note e = upsert_existing [OF wf f, folded row'_def]
  from findUniqueBySlug_Some [OF f] have m: "row \<in> set tbl" by simp
  from wf have dd: "distinct (map id' tbl)" by (simp add: wfTable_def)
  have 1: "map id' (replaceRow (id' row) row' tbl) = map id' tbl"
    and 2: "map slug (replaceRow (id' row) row' tbl) = map slug tbl"
    and 3: "map createdAt (replaceRow (id' row) row' tbl) = map createdAt tbl"
    by (rule replaceRow_map [OF dd m e(4)], rule replaceRow_map [OF dd m e(5)],
        rule replaceRow_map [OF dd m e(6)])
  from findUniqueById_row [OF e(2) replaceRow_mem [OF m, of row']] e(4)
  have 4: "findUniqueById (id' row) (replaceRow (id' row) row' tbl) = Some row'"
    by simp
  have 5: "\<forall>r \<in> set tbl. id' r \<noteq> id' row \<longrightarrow> r \<in> set (replaceRow (id' row) row' tbl)"
    by (simp add: replaceRow_others)
  from e(4,5,6) have 6: "id' (toPostWithTags row') = id' row"
    "slug (toPostWithTags row') = slug row" "createdAt (toPostWithTags row') = createdAt row"
    by (simp_all add: toPostWithTags_def)
  show "case upsertPostBySlug env d tbl of
        (Inr p, tbl') \<Rightarrow>
          id' p = id' row \<and> slug p = slug row \<and> createdAt p = createdAt row
          \<and> map id' tbl' = map id' tbl \<and> map slug tbl' = map slug tbl
          \<and> map createdAt tbl' = map createdAt tbl
          \<and> (case findUniqueById (id' row) tbl' of
                Some row' \<Rightarrow> p = toPostWithTags row' \<and> fieldsOfCall env d row'
              | None \<Rightarrow> False)
          \<and> (\<forall>r \<in> set tbl. id' r \<noteq> id' row \<longrightarrow> r \<in> set tbl')
      | (Inl e, tbl') \<Rightarrow> False"
    unfolding e(1) using 1 2 3 4 5 6 e(7) by simp
qed

theorem upsert_keeps_id_and_slug_witness:
  "wfTable twoPosts
   \<and> findUniqueBySlug
        (slugOf env0 (noData \<lparr> c_title := js ''New title'', c_slug := Some (js ''post-'' @ [3]) \<rparr>))
        twoPosts = Some (samplePost PUBLISHED 3)
   \<and> (case upsertPostBySlug env0
              (noData \<lparr> c_title := js ''New title'', c_slug := Some (js ''post-'' @ [3]) \<rparr>)
              twoPosts of
         (Inr p, tbl') \<Rightarrow>
           id' p = js ''id-'' @ [3] \<and> slug p = js ''post-'' @ [3] \<and> title p = js ''New title''
           \<and> map id' tbl' = [js ''id-'' @ [3], js ''id-'' @ [4]]
           \<and> map slug tbl' = [js ''post-'' @ [3], js ''post-'' @ [4]]
       | (Inl e, tbl') \<Rightarrow> False)"
proof -
  let ?d = "noData \<lparr> c_title := js ''New title'', c_slug := Some (js ''post-'' @ [3]) \<rparr>"
  have s: "slugOf env0 ?d = js ''post-'' @ [3]"
    by (rule slugOf_given) simp
  have f: "findUniqueBySlug (slugOf env0 ?d) twoPosts = Some (samplePost PUBLISHED 3)"
    unfolding s by (rule twoPosts_find)
  obtain p tbl' where u: "upsertPostBySlug env0 ?d twoPosts = (Inr p, tbl')"
    using upsert_existing(1) [OF twoPosts_wf f] by blast
  have i: "id' (samplePost PUBLISHED 3) = js ''id-'' @ [3]"
    "slug (samplePost PUBLISHED 3) = js ''post-'' @ [3]"
    "map id' twoPosts = [js ''id-'' @ [3], js ''id-'' @ [4]]"
    "map slug twoPosts = [js ''post-'' @ [3], js ''post-'' @ [4]]"
    by (simp_all add: samplePost_def twoPosts_def)
  from upsert_keeps_id_and_slug [of twoPosts env0 ?d "samplePost PUBLISHED 3"] twoPosts_wf f
  have "id' p = js ''id-'' @ [3] \<and> slug p = js ''post-'' @ [3] \<and> title p = js ''New title''
           \<and> map id' tbl' = [js ''id-'' @ [3], js ''id-'' @ [4]]
           \<and> map slug tbl' = [js ''post-'' @ [3], js ''post-'' @ [4]]"
    unfolding u i
    by (auto simp: fieldsOfCall_def Let_def toPostWithTags_def split: option.splits)
  with twoPosts_wf f show ?thesis
    unfolding u by simp
qed

end
